theory Spec2Isabelle
  imports Main "HOL-Library.Multiset"
begin

chapter \<open>The program\<close>

section \<open>JavaScript values and containers\<close>

text \<open>
  The result of \<open>parseInt\<close>: an integer or \<open>NaN\<close>. Strict equality \<open>===\<close> on numbers
  is equality of the integers; \<open>NaN\<close> is not equal to anything, itself included, and
  \<open>null\<close> (\<open>None\<close> below) is not equal to any number.
\<close>

datatype jsnum = Num int | NaN

fun strict_eq_num :: "jsnum \<Rightarrow> jsnum \<Rightarrow> bool" where
  "strict_eq_num (Num a) (Num b) = (a = b)"
| "strict_eq_num _ _ = False"

fun strict_eq :: "jsnum option \<Rightarrow> jsnum \<Rightarrow> bool" where
  "strict_eq None _ = False"
| "strict_eq (Some a) b = strict_eq_num a b"

text \<open>
  The values a frame's \<open>data\<close> fields carry on the wire: an integer number (below
  \<open>10\<^sup>2\<^sup>1\<close> in magnitude, which JavaScript prints in decimal), a string of ASCII
  characters, or an absent field. \<open>parseInt\<close> converts its argument to a string and reads
  the longest prefix of decimal digits (after white space and a sign; hexadecimal
  digits after \<open>0x\<close>); it gives \<open>NaN\<close> when there is none.
\<close>

datatype jsval = JNum int | JStr string | JUndefined

definition is_space :: "char \<Rightarrow> bool" where
  "is_space c = (c \<in> set [CHR '' '', CHR 0x09, CHR 0x0A, CHR 0x0B, CHR 0x0C, CHR 0x0D])"

definition digit_value :: "char \<Rightarrow> nat option" where
  "digit_value c =
     (let n = of_char c :: nat in
      if 48 \<le> n \<and> n \<le> 57 then Some (n - 48)
      else if 97 \<le> n \<and> n \<le> 102 then Some (n - 87)
      else if 65 \<le> n \<and> n \<le> 70 then Some (n - 55)
      else None)"

definition is_digit :: "nat \<Rightarrow> char \<Rightarrow> bool" where
  "is_digit radix c = (case digit_value c of None \<Rightarrow> False | Some d \<Rightarrow> d < radix)"

definition digits_to_int :: "nat \<Rightarrow> string \<Rightarrow> int" where
  "digits_to_int radix ds =
     foldl (\<lambda>a c. a * int radix + int (the (digit_value c))) 0 ds"

definition parseInt_string :: "string \<Rightarrow> jsnum" where
  "parseInt_string s =
     (let t = dropWhile is_space s;
          neg = (case t of c # _ \<Rightarrow> c = CHR ''-'' | [] \<Rightarrow> False);
          u = (case t of c # r \<Rightarrow> if c = CHR ''-'' \<or> c = CHR ''+'' then r else t | [] \<Rightarrow> t);
          hex = (take 2 u = ''0x'' \<or> take 2 u = ''0X'');
          radix = (if hex then 16 else 10);
          v = (if hex then drop 2 u else u);
          ds = takeWhile (is_digit radix) v
      in if ds = [] then NaN
         else Num ((if neg then - 1 else 1) * digits_to_int radix ds))"

fun parseInt :: "jsval \<Rightarrow> jsnum" where
  "parseInt (JNum n) = Num n"
| "parseInt (JStr s) = parseInt_string s"
| "parseInt JUndefined = NaN"

text \<open>
  A JavaScript \<open>Map\<close>: keys are unique and iteration follows insertion order. \<open>set\<close> on
  a present key replaces the value in place, on an absent key it appends.
\<close>

type_synonym ('k, 'v) jsmap = "('k \<times> 'v) list"

definition map_get :: "('k, 'v) jsmap \<Rightarrow> 'k \<Rightarrow> 'v option" where
  "map_get m k = map_of m k"

fun map_set :: "('k, 'v) jsmap \<Rightarrow> 'k \<Rightarrow> 'v \<Rightarrow> ('k, 'v) jsmap" where
  "map_set [] k v = [(k, v)]"
| "map_set (p # ps) k v = (if fst p = k then (k, v) # ps else p # map_set ps k v)"

definition map_delete :: "('k, 'v) jsmap \<Rightarrow> 'k \<Rightarrow> ('k, 'v) jsmap" where
  "map_delete m k = filter (\<lambda>p. fst p \<noteq> k) m"

definition map_values :: "('k, 'v) jsmap \<Rightarrow> 'v list" where
  "map_values m = map snd m"

definition map_keys :: "('k, 'v) jsmap \<Rightarrow> 'k list" where
  "map_keys m = map fst m"

section \<open>Data model (shared/schema.ts)\<close>

text \<open>A \<open>Date\<close> is its \<open>getTime()\<close>: milliseconds since the epoch.\<close>

type_synonym date = int

record Message =
  m_id :: int
  m_conversationId :: int
  m_senderId :: int
  m_content :: string
  m_isRead :: bool
  m_createdAt :: date

record Conversation =
  c_id :: int
  c_petId :: int
  c_adopterId :: int
  c_ownerId :: int
  c_title :: string
  c_lastMessageAt :: date

record InsertMessage =
  im_conversationId :: int
  im_content :: string

record InsertConversation =
  ic_petId :: int
  ic_adopterId :: int
  ic_ownerId :: int
  ic_title :: string

record User =
  u_id :: int
  u_username :: string
  u_password :: string
  u_email :: string
  u_name :: string
  u_phone :: "string option"
  u_location :: "string option"
  u_bio :: "string option"
  u_avatar :: "string option"
  u_role :: string
  u_isAdmin :: bool
  u_createdAt :: date

record Pet =
  p_id :: int
  p_name :: string
  p_petType :: string
  p_breed :: string
  p_gender :: string
  p_age :: int
  p_ageGroup :: string
  p_size :: string
  p_location :: string
  p_description :: string
  p_goodWithChildren :: "bool option"
  p_goodWithDogs :: "bool option"
  p_goodWithCats :: "bool option"
  p_mainImage :: string
  p_additionalImages :: "string list option"
  p_statusTag :: "string option"
  p_ownerId :: int
  p_adopted :: bool
  p_createdAt :: date
  p_updatedAt :: date

section \<open>Presence registry, broadcast router and session protocol (server/routes.ts)\<close>

text \<open>
  A \<open>WebSocket\<close> object is its identity. The server keeps
  \<open>connections : Map<WebSocket, {userId, conversationId}>\<close>; both fields are \<open>null\<close>
  until an \<open>auth\<close> frame arrives. \<open>sent\<close> records every call of \<open>client.send\<close>, in
  order, with the frame that was serialised.
\<close>

type_synonym ws = nat

datatype ready_state = CONNECTING | OPEN | CLOSING | CLOSED

record conn_info =
  conn_userId :: "jsnum option"
  conn_conversationId :: "jsnum option"

datatype event =
    Connected string
  | New_message Message
  | Message_read "int list" int
  | Typing jsval
  | Stop_typing jsval
  | Pong

record ws_server =
  connections :: "(ws, conn_info) jsmap"
  readyState :: "ws \<Rightarrow> ready_state"
  sent :: "(ws \<times> event) list"

definition send :: "ws_server \<Rightarrow> ws \<Rightarrow> event \<Rightarrow> ws_server" where
  "send s client e = s\<lparr>sent := sent s @ [(client, e)]\<rparr>"

definition broadcastToConversation ::
  "ws_server \<Rightarrow> jsnum \<Rightarrow> event \<Rightarrow> ws option \<Rightarrow> ws_server" where
  "broadcastToConversation s conversationId message excludeClient =
     foldl (\<lambda>s' (client, connectionInfo).
              if readyState s' client = OPEN
                 \<and> strict_eq (conn_conversationId connectionInfo) conversationId
                 \<and> Some client \<noteq> excludeClient
              then send s' client message
              else s')
           s (connections s)"

text \<open>
  An incoming frame after \<open>JSON.parse\<close>: \<open>Malformed\<close> when parsing it or reading its
  \<open>type\<close> throws, otherwise its \<open>type\<close> and its \<open>data\<close> (\<open>None\<close> when \<open>data\<close> is absent,
  so that destructuring it throws). The handler's \<open>catch\<close> logs what is thrown and goes
  on.
\<close>

record frame_data =
  fd_userId :: jsval
  fd_conversationId :: jsval

datatype client_frame = Malformed | Frame string "frame_data option"

definition on_connection :: "ws_server \<Rightarrow> ws \<Rightarrow> ws_server" where
  "on_connection s ws =
     send (s\<lparr>connections :=
               map_set (connections s) ws \<lparr>conn_userId = None, conn_conversationId = None\<rparr>\<rparr>)
          ws (Connected ''Connected to PawMates Chat Server'')"

definition on_message :: "ws_server \<Rightarrow> ws \<Rightarrow> client_frame \<Rightarrow> ws_server" where
  "on_message s ws raw =
     (case raw of
        Malformed \<Rightarrow> s
      | Frame type data \<Rightarrow>
          if type = ''auth'' then
            (case data of
               None \<Rightarrow> s
             | Some d \<Rightarrow>
                 s\<lparr>connections :=
                     map_set (connections s) ws
                       \<lparr>conn_userId = Some (parseInt (fd_userId d)),
                        conn_conversationId = Some (parseInt (fd_conversationId d))\<rparr>\<rparr>)
          else if type = ''typing'' then
            (case data of
               None \<Rightarrow> s
             | Some d \<Rightarrow>
                 broadcastToConversation s (parseInt (fd_conversationId d))
                   (Typing (fd_userId d)) (Some ws))
          else if type = ''stop_typing'' then
            (case data of
               None \<Rightarrow> s
             | Some d \<Rightarrow>
                 broadcastToConversation s (parseInt (fd_conversationId d))
                   (Stop_typing (fd_userId d)) (Some ws))
          else if type = ''ping'' then send s ws Pong
          else s)"

definition on_close :: "ws_server \<Rightarrow> ws \<Rightarrow> ws_server" where
  "on_close s ws = s\<lparr>connections := map_delete (connections s) ws\<rparr>"

text \<open>A connection is Unauthenticated while its entry still holds the two \<open>null\<close>s.\<close>

definition unauthenticated :: "ws_server \<Rightarrow> ws \<Rightarrow> bool" where
  "unauthenticated s ws =
     (map_get (connections s) ws = Some \<lparr>conn_userId = None, conn_conversationId = None\<rparr>)"

text \<open>
  The entries of the registry that pass the test of \<open>broadcastToConversation\<close>, and
  the frames a run of the server added to \<open>sent\<close>.
\<close>

definition recipients :: "ws_server \<Rightarrow> jsnum \<Rightarrow> ws option \<Rightarrow> (ws \<times> conn_info) list" where
  "recipients s cid ex =
     filter (\<lambda>p. readyState s (fst p) = OPEN
                 \<and> strict_eq (conn_conversationId (snd p)) cid
                 \<and> Some (fst p) \<noteq> ex) (connections s)"

definition new_frames :: "ws_server \<Rightarrow> ws_server \<Rightarrow> (ws \<times> event) list" where
  "new_frames s s' = drop (length (sent s)) (sent s')"

section \<open>Client: the message log (MessageThread.handleNewMessage)\<close>

text \<open>
  The react-query cache entry of a conversation is \<open>Message[] | undefined\<close>. The handler
  updates it, invalidates the conversation list and, for a message of the other user,
  issues the mark-read request.
\<close>

datatype client_effect = Invalidate_conversations | Patch_read int "int list"

definition handleNewMessage_update :: "Message list option \<Rightarrow> Message \<Rightarrow> Message list" where
  "handleNewMessage_update oldData message =
     (case oldData of
        None \<Rightarrow> [message]
      | Some old \<Rightarrow>
          if list_ex (\<lambda>msg. m_id msg = m_id message) old then old
          else old @ [message])"

definition handleNewMessage ::
  "int \<Rightarrow> int \<Rightarrow> Message list option \<Rightarrow> Message \<Rightarrow> Message list option \<times> client_effect list" where
  "handleNewMessage conversation_id currentUserId cache message =
     (Some (handleNewMessage_update cache message),
      Invalidate_conversations #
      (if m_senderId message \<noteq> currentUserId
       then [Patch_read conversation_id [m_id message]] else []))"

definition log_of :: "Message list option \<Rightarrow> Message list" where
  "log_of cache = (case cache of None \<Rightarrow> [] | Some xs \<Rightarrow> xs)"

text \<open>
  A sequence of \<open>new_message\<close> events applied to the cache, one after the other.
\<close>

definition apply_new_messages ::
  "int \<Rightarrow> int \<Rightarrow> Message list option \<Rightarrow> Message list \<Rightarrow> Message list option" where
  "apply_new_messages conversation_id currentUserId cache ms =
     foldl (\<lambda>c m. fst (handleNewMessage conversation_id currentUserId c m)) cache ms"

section \<open>Client: typing state (hooks/use-chat-socket.tsx)\<close>






record UseChatSocketOptions =
  opt_userId :: int
  opt_conversationId :: int
  onNewMessage :: bool
  onMessageRead :: bool
  onTyping :: bool
  onStopTyping :: bool









section \<open>The in-memory store (server/storage.ts, MemStorage)\<close>

record MemStorage =
  users :: "(int, User) jsmap"
  pets :: "(int, Pet) jsmap"
  conversations :: "(int, Conversation) jsmap"
  messages :: "(int, Message) jsmap"
  currentUserId :: int
  currentPetId :: int
  currentConversationId :: int
  currentMessageId :: int

text \<open>The store the constructor builds before it loads the sample data.\<close>

definition empty_storage :: MemStorage where
  "empty_storage =
     \<lparr>users = [], pets = [], conversations = [], messages = [],
      currentUserId = 1, currentPetId = 1, currentConversationId = 1, currentMessageId = 1\<rparr>"

definition getPet :: "MemStorage \<Rightarrow> int \<Rightarrow> Pet option" where
  "getPet s pid = map_get (pets s) pid"

definition getConversation :: "MemStorage \<Rightarrow> int \<Rightarrow> Conversation option" where
  "getConversation s cid = map_get (conversations s) cid"

definition getConversationByParticipants ::
  "MemStorage \<Rightarrow> int \<Rightarrow> int \<Rightarrow> int \<Rightarrow> Conversation option" where
  "getConversationByParticipants s petId adopterId ownerId =
     find (\<lambda>conversation.
             c_petId conversation = petId
             \<and> c_adopterId conversation = adopterId
             \<and> c_ownerId conversation = ownerId)
          (map_values (conversations s))"

definition createConversation ::
  "MemStorage \<Rightarrow> InsertConversation \<Rightarrow> date \<Rightarrow> MemStorage \<times> Conversation" where
  "createConversation s insertConversation now =
     (let new_id = currentConversationId s;
          conversation =
            \<lparr>c_id = new_id,
             c_petId = ic_petId insertConversation,
             c_adopterId = ic_adopterId insertConversation,
             c_ownerId = ic_ownerId insertConversation,
             c_title = ic_title insertConversation,
             c_lastMessageAt = now\<rparr>
      in (s\<lparr>currentConversationId := new_id + 1,
            conversations := map_set (conversations s) new_id conversation\<rparr>,
          conversation))"

definition updateConversationLastMessageTime :: "MemStorage \<Rightarrow> int \<Rightarrow> date \<Rightarrow> MemStorage" where
  "updateConversationLastMessageTime s cid now =
     (case map_get (conversations s) cid of
        None \<Rightarrow> s
      | Some conversation \<Rightarrow>
          s\<lparr>conversations :=
              map_set (conversations s) cid (conversation\<lparr>c_lastMessageAt := now\<rparr>)\<rparr>)"


definition createMessage ::
  "MemStorage \<Rightarrow> InsertMessage \<Rightarrow> int \<Rightarrow> date \<Rightarrow> MemStorage \<times> Message" where
  "createMessage s insertMessage senderId now =
     (let new_id = currentMessageId s;
          message =
            \<lparr>m_id = new_id,
             m_conversationId = im_conversationId insertMessage,
             m_senderId = senderId,
             m_content = im_content insertMessage,
             m_isRead = False,
             m_createdAt = now\<rparr>
      in (s\<lparr>currentMessageId := new_id + 1,
            messages := map_set (messages s) new_id message\<rparr>,
          message))"

definition mark_one :: "int \<Rightarrow> MemStorage \<Rightarrow> int \<Rightarrow> MemStorage" where
  "mark_one userId s mid =
     (case map_get (messages s) mid of
        None \<Rightarrow> s
      | Some message \<Rightarrow>
          if m_senderId message \<noteq> userId
          then s\<lparr>messages := map_set (messages s) mid (message\<lparr>m_isRead := True\<rparr>)\<rparr>
          else s)"

definition markMessagesAsRead :: "MemStorage \<Rightarrow> int list \<Rightarrow> int \<Rightarrow> MemStorage" where
  "markMessagesAsRead s messageIds userId = foldl (mark_one userId) s messageIds"

definition delete_conversation :: "MemStorage \<Rightarrow> int \<Rightarrow> MemStorage" where
  "delete_conversation s convId =
     (let s1 = s\<lparr>conversations := map_delete (conversations s) convId\<rparr>;
          messagesToDelete =
            map m_id (filter (\<lambda>message. m_conversationId message = convId)
                        (map_values (messages s1)))
      in foldl (\<lambda>s' msgId. s'\<lparr>messages := map_delete (messages s') msgId\<rparr>) s1 messagesToDelete)"

definition deletePet :: "MemStorage \<Rightarrow> int \<Rightarrow> MemStorage" where
  "deletePet s pid =
     (let s1 = s\<lparr>pets := map_delete (pets s) pid\<rparr>;
          conversationsToDelete =
            map c_id (filter (\<lambda>conversation. c_petId conversation = pid)
                        (map_values (conversations s1)))
      in foldl delete_conversation s1 conversationsToDelete)"

text \<open>
  The writing operations of the store. Those that write conversations or messages are
  translated one by one. The other four (\<open>createUser\<close>, \<open>updateUserRole\<close>, \<open>createPet\<close>,
  \<open>updatePet\<close>) write only \<open>users\<close>, \<open>pets\<close> and their two counters; \<open>WriteUsersPets\<close>
  stands for any of them, with whatever they store.
\<close>

datatype store_op =
    CreateConversation InsertConversation date
  | UpdateConversationLastMessageTime int date
  | CreateMessage InsertMessage int date
  | MarkMessagesAsRead "int list" int
  | DeletePet int
  | WriteUsersPets "(int, User) jsmap" "(int, Pet) jsmap" int int

fun apply_op :: "MemStorage \<Rightarrow> store_op \<Rightarrow> MemStorage" where
  "apply_op s (CreateConversation ins now) = fst (createConversation s ins now)"
| "apply_op s (UpdateConversationLastMessageTime cid now) =
     updateConversationLastMessageTime s cid now"
| "apply_op s (CreateMessage ins senderId now) = fst (createMessage s ins senderId now)"
| "apply_op s (MarkMessagesAsRead ids userId) = markMessagesAsRead s ids userId"
| "apply_op s (DeletePet pid) = deletePet s pid"
| "apply_op s (WriteUsersPets us ps next_user next_pet) =
     s\<lparr>users := us, pets := ps, currentUserId := next_user, currentPetId := next_pet\<rparr>"

text \<open>Message ids come from a counter that is ahead of every id in use.\<close>

definition message_ids_fresh :: "MemStorage \<Rightarrow> bool" where
  "message_ids_fresh s = list_all (\<lambda>k. k < currentMessageId s) (map_keys (messages s))"

section \<open>The storage interface and the database store (server/storage.ts, DatabaseStorage)\<close>

text \<open>
  The routes call the store through \<open>IStorage\<close>; \<open>storage\<close> is a \<open>MemStorage\<close> or a
  \<open>DatabaseStorage\<close>. An awaited call returns a value or throws, and leaves a store
  state either way.
\<close>

datatype 'a outcome = Returned 'a | Thrown

record 'st IStorage =
  st_getPet :: "'st \<Rightarrow> int \<Rightarrow> 'st \<times> Pet option outcome"
  st_getConversation :: "'st \<Rightarrow> int \<Rightarrow> 'st \<times> Conversation option outcome"
  st_getConversationByParticipants ::
    "'st \<Rightarrow> int \<Rightarrow> int \<Rightarrow> int \<Rightarrow> 'st \<times> Conversation option outcome"
  st_createConversation :: "'st \<Rightarrow> InsertConversation \<Rightarrow> date \<Rightarrow> 'st \<times> Conversation outcome"
  st_updateConversationLastMessageTime :: "'st \<Rightarrow> int \<Rightarrow> date \<Rightarrow> 'st \<times> unit outcome"
  st_createMessage :: "'st \<Rightarrow> InsertMessage \<Rightarrow> int \<Rightarrow> date \<Rightarrow> 'st \<times> Message outcome"

text \<open>The methods of \<open>MemStorage\<close> never throw.\<close>

definition mem_storage :: "MemStorage IStorage" where
  "mem_storage =
     \<lparr>st_getPet = (\<lambda>s pid. (s, Returned (getPet s pid))),
      st_getConversation = (\<lambda>s cid. (s, Returned (getConversation s cid))),
      st_getConversationByParticipants =
        (\<lambda>s petId adopterId ownerId.
           (s, Returned (getConversationByParticipants s petId adopterId ownerId))),
      st_createConversation =
        (\<lambda>s ins now. case createConversation s ins now of (s', c) \<Rightarrow> (s', Returned c)),
      st_updateConversationLastMessageTime =
        (\<lambda>s cid now. (updateConversationLastMessageTime s cid now, Returned ())),
      st_createMessage =
        (\<lambda>s ins senderId now.
           case createMessage s ins senderId now of (s', m) \<Rightarrow> (s', Returned m))\<rparr>"

text \<open>
  \<open>DatabaseStorage\<close> sends one SQL statement per \<open>await db\<dots>\<close>, each committed on its
  own: no method opens a transaction. The database is its tables (rows in table order),
  the two id sequences, and \<open>failures\<close>: for the statements still to come, whether each
  one throws (a lost connection, a violated constraint); statements beyond the list
  succeed. Both clock readings of one \<open>createMessage\<close> call are the same instant.
\<close>

record Database =
  tbl_pets :: "Pet list"
  tbl_conversations :: "Conversation list"
  tbl_messages :: "Message list"
  conversations_id_seq :: int
  messages_id_seq :: int
  failures :: "bool list"

definition db_statement :: "Database \<Rightarrow> Database \<times> bool" where
  "db_statement d =
     (case failures d of
        [] \<Rightarrow> (d, True)
      | f # fs \<Rightarrow> (d\<lparr>failures := fs\<rparr>, \<not> f))"

definition db_getPet :: "Database \<Rightarrow> int \<Rightarrow> Database \<times> Pet option outcome" where
  "db_getPet d pid =
     (case db_statement d of
        (d1, False) \<Rightarrow> (d1, Thrown)
      | (d1, True) \<Rightarrow> (d1, Returned (find (\<lambda>pet. p_id pet = pid) (tbl_pets d1))))"

definition db_getConversation ::
  "Database \<Rightarrow> int \<Rightarrow> Database \<times> Conversation option outcome" where
  "db_getConversation d cid =
     (case db_statement d of
        (d1, False) \<Rightarrow> (d1, Thrown)
      | (d1, True) \<Rightarrow>
          (d1, Returned (find (\<lambda>conversation. c_id conversation = cid) (tbl_conversations d1))))"

definition db_getConversationByParticipants ::
  "Database \<Rightarrow> int \<Rightarrow> int \<Rightarrow> int \<Rightarrow> Database \<times> Conversation option outcome" where
  "db_getConversationByParticipants d petId adopterId ownerId =
     (case db_statement d of
        (d1, False) \<Rightarrow> (d1, Thrown)
      | (d1, True) \<Rightarrow>
          (d1, Returned (find (\<lambda>conversation.
                                 c_petId conversation = petId
                                 \<and> c_adopterId conversation = adopterId
                                 \<and> c_ownerId conversation = ownerId)
                              (tbl_conversations d1))))"

definition db_createConversation ::
  "Database \<Rightarrow> InsertConversation \<Rightarrow> date \<Rightarrow> Database \<times> Conversation outcome" where
  "db_createConversation d insertConversation now =
     (case db_statement d of
        (d1, False) \<Rightarrow> (d1, Thrown)
      | (d1, True) \<Rightarrow>
          (let conversation =
                 \<lparr>c_id = conversations_id_seq d1,
                  c_petId = ic_petId insertConversation,
                  c_adopterId = ic_adopterId insertConversation,
                  c_ownerId = ic_ownerId insertConversation,
                  c_title = ic_title insertConversation,
                  c_lastMessageAt = now\<rparr>
           in (d1\<lparr>tbl_conversations := tbl_conversations d1 @ [conversation],
                  conversations_id_seq := conversations_id_seq d1 + 1\<rparr>,
               Returned conversation)))"

definition db_updateConversationLastMessageTime ::
  "Database \<Rightarrow> int \<Rightarrow> date \<Rightarrow> Database \<times> unit outcome" where
  "db_updateConversationLastMessageTime d cid now =
     (case db_statement d of
        (d1, False) \<Rightarrow> (d1, Thrown)
      | (d1, True) \<Rightarrow>
          (d1\<lparr>tbl_conversations :=
                 map (\<lambda>conversation.
                        if c_id conversation = cid
                        then conversation\<lparr>c_lastMessageAt := now\<rparr>
                        else conversation)
                     (tbl_conversations d1)\<rparr>,
           Returned ()))"

definition db_createMessage ::
  "Database \<Rightarrow> InsertMessage \<Rightarrow> int \<Rightarrow> date \<Rightarrow> Database \<times> Message outcome" where
  "db_createMessage d insertMessage senderId now =
     (case db_statement d of
        (d1, False) \<Rightarrow> (d1, Thrown)
      | (d1, True) \<Rightarrow>
          (let message =
                 \<lparr>m_id = messages_id_seq d1,
                  m_conversationId = im_conversationId insertMessage,
                  m_senderId = senderId,
                  m_content = im_content insertMessage,
                  m_isRead = False,
                  m_createdAt = now\<rparr>;
               d2 = d1\<lparr>tbl_messages := tbl_messages d1 @ [message],
                       messages_id_seq := messages_id_seq d1 + 1\<rparr>
           in case db_updateConversationLastMessageTime d2
                     (im_conversationId insertMessage) now of
                (d3, Thrown) \<Rightarrow> (d3, Thrown)
              | (d3, Returned _) \<Rightarrow> (d3, Returned message)))"

text \<open>
  \<open>DatabaseStorage.markMessagesAsRead\<close>: for every id one \<open>select\<close> and, when the
  row exists and was not sent by the reader, one \<open>update\<close> setting \<open>isRead\<close> for the
  rows with that id. A statement that throws ends the call.
\<close>

fun db_markMessagesAsRead :: "Database \<Rightarrow> int list \<Rightarrow> int \<Rightarrow> Database \<times> unit outcome" where
  "db_markMessagesAsRead d [] userId = (d, Returned ())"
| "db_markMessagesAsRead d (mid # ids) userId =
     (case db_statement d of
        (d1, False) \<Rightarrow> (d1, Thrown)
      | (d1, True) \<Rightarrow>
          (case find (\<lambda>message. m_id message = mid) (tbl_messages d1) of
             None \<Rightarrow> db_markMessagesAsRead d1 ids userId
           | Some message \<Rightarrow>
               if m_senderId message \<noteq> userId
               then (case db_statement d1 of
                       (d2, False) \<Rightarrow> (d2, Thrown)
                     | (d2, True) \<Rightarrow>
                         db_markMessagesAsRead
                           (d2\<lparr>tbl_messages :=
                                 map (\<lambda>m. if m_id m = mid then m\<lparr>m_isRead := True\<rparr> else m)
                                     (tbl_messages d2)\<rparr>)
                           ids userId)
               else db_markMessagesAsRead d1 ids userId))"

text \<open>
  \<open>DatabaseStorage.deletePet\<close> is one \<open>delete\<close>; the schema's \<open>onDelete: "cascade"\<close>
  references remove the pet's conversations and their messages with it.
\<close>

definition db_deletePet :: "Database \<Rightarrow> int \<Rightarrow> Database \<times> unit outcome" where
  "db_deletePet d pid =
     (case db_statement d of
        (d1, False) \<Rightarrow> (d1, Thrown)
      | (d1, True) \<Rightarrow>
          (let gone = map c_id (filter (\<lambda>c. c_petId c = pid) (tbl_conversations d1))
           in (d1\<lparr>tbl_pets := filter (\<lambda>pet. p_id pet \<noteq> pid) (tbl_pets d1),
                  tbl_conversations := filter (\<lambda>c. c_petId c \<noteq> pid) (tbl_conversations d1),
                  tbl_messages :=
                    filter (\<lambda>m. m_conversationId m \<notin> set gone) (tbl_messages d1)\<rparr>,
               Returned ())))"

definition db_storage :: "Database IStorage" where
  "db_storage =
     \<lparr>st_getPet = db_getPet,
      st_getConversation = db_getConversation,
      st_getConversationByParticipants = db_getConversationByParticipants,
      st_createConversation = db_createConversation,
      st_updateConversationLastMessageTime = db_updateConversationLastMessageTime,
      st_createMessage = db_createMessage\<rparr>"

text \<open>
  The writing operations of \<open>DatabaseStorage\<close> on conversations and messages; the store
  they leave, whether they return or throw.
\<close>

datatype db_op =
    DbCreateConversation InsertConversation date
  | DbUpdateConversationLastMessageTime int date
  | DbCreateMessage InsertMessage int date
  | DbMarkMessagesAsRead "int list" int
  | DbDeletePet int

fun db_apply_op :: "Database \<Rightarrow> db_op \<Rightarrow> Database" where
  "db_apply_op d (DbCreateConversation ins now) = fst (db_createConversation d ins now)"
| "db_apply_op d (DbUpdateConversationLastMessageTime cid now) =
     fst (db_updateConversationLastMessageTime d cid now)"
| "db_apply_op d (DbCreateMessage ins senderId now) = fst (db_createMessage d ins senderId now)"
| "db_apply_op d (DbMarkMessagesAsRead ids userId) = fst (db_markMessagesAsRead d ids userId)"
| "db_apply_op d (DbDeletePet pid) = fst (db_deletePet d pid)"

text \<open>
  \<open>messages.id\<close> is a \<open>serial\<close> primary key: ids are unique and the sequence is ahead
  of them.
\<close>

definition db_message_ids_ok :: "Database \<Rightarrow> bool" where
  "db_message_ids_ok d =
     (distinct (map m_id (tbl_messages d))
      \<and> list_all (\<lambda>m. m_id m < messages_id_seq d) (tbl_messages d))"

text \<open>
  The rows of the messages table after the ids in \<open>S\<close> have been marked for reader
  \<open>u\<close>.
\<close>

definition mark_rows :: "int set \<Rightarrow> int \<Rightarrow> Message list \<Rightarrow> Message list" where
  "mark_rows S u rows =
     map (\<lambda>m. if m_id m \<in> S \<and> m_senderId m \<noteq> u then m\<lparr>m_isRead := True\<rparr> else m) rows"

section \<open>The REST handlers for conversations and messages (server/routes.ts)\<close>

text \<open>
  A request is the id of the session's user, \<open>req.user.id\<close> (\<open>None\<close> when
  \<open>req.isAuthenticated()\<close> is false), and the body after the zod schema (\<open>None\<close> when \<open>parse\<close> throws a \<open>ZodError\<close>).
  A response is a status and a body.
\<close>

datatype body =
    Json_message string
  | Json_conversation Conversation
  | Json_new_message Message

type_synonym response = "nat \<times> body"

definition post_conversations ::
  "'st IStorage \<Rightarrow> 'st \<Rightarrow> int option \<Rightarrow> InsertConversation option \<Rightarrow> date
     \<Rightarrow> 'st \<times> response" where
  "post_conversations S st user parsed now =
     (case user of
        None \<Rightarrow> (st, (401, Json_message ''Not authenticated''))
      | Some reqUserId \<Rightarrow>
     (case parsed of
        None \<Rightarrow> (st, (400, Json_message ''Invalid conversation data''))
      | Some conversationData \<Rightarrow>
     (case st_getPet S st (ic_petId conversationData) of
        (st1, Thrown) \<Rightarrow> (st1, (500, Json_message ''Error creating conversation''))
      | (st1, Returned None) \<Rightarrow> (st1, (404, Json_message ''Pet not found''))
      | (st1, Returned (Some pet)) \<Rightarrow>
     if reqUserId \<noteq> ic_adopterId conversationData
        \<and> reqUserId \<noteq> ic_ownerId conversationData
     then (st1, (403, Json_message ''Not authorized to create this conversation''))
     else
     (case st_getConversationByParticipants S st1 (ic_petId conversationData)
             (ic_adopterId conversationData) (ic_ownerId conversationData) of
        (st2, Thrown) \<Rightarrow> (st2, (500, Json_message ''Error creating conversation''))
      | (st2, Returned (Some existingConversation)) \<Rightarrow>
          (st2, (200, Json_conversation existingConversation))
      | (st2, Returned None) \<Rightarrow>
     (case st_createConversation S st2 conversationData now of
        (st3, Thrown) \<Rightarrow> (st3, (500, Json_message ''Error creating conversation''))
      | (st3, Returned newConversation) \<Rightarrow>
          (st3, (201, Json_conversation newConversation)))))))"

definition post_messages ::
  "'st IStorage \<Rightarrow> 'st \<times> ws_server \<Rightarrow> int option \<Rightarrow> InsertMessage option \<Rightarrow> date \<Rightarrow> date
     \<Rightarrow> ('st \<times> ws_server) \<times> response" where
  "post_messages S app user parsed now1 now2 =
     (case app of (st, wss) \<Rightarrow>
     (case user of
        None \<Rightarrow> (app, (401, Json_message ''Not authenticated''))
      | Some reqUserId \<Rightarrow>
     (case parsed of
        None \<Rightarrow> (app, (400, Json_message ''Invalid message data''))
      | Some messageData \<Rightarrow>
     (case st_getConversation S st (im_conversationId messageData) of
        (st1, Thrown) \<Rightarrow> ((st1, wss), (500, Json_message ''Error creating message''))
      | (st1, Returned None) \<Rightarrow> ((st1, wss), (404, Json_message ''Conversation not found''))
      | (st1, Returned (Some conversation)) \<Rightarrow>
     if reqUserId \<noteq> c_adopterId conversation \<and> reqUserId \<noteq> c_ownerId conversation
     then ((st1, wss), (403, Json_message ''Not authorized to message in this conversation''))
     else
     (case st_createMessage S st1 messageData reqUserId now1 of
        (st2, Thrown) \<Rightarrow> ((st2, wss), (500, Json_message ''Error creating message''))
      | (st2, Returned newMessage) \<Rightarrow>
     (case st_updateConversationLastMessageTime S st2 (im_conversationId messageData) now2 of
        (st3, Thrown) \<Rightarrow> ((st3, wss), (500, Json_message ''Error creating message''))
      | (st3, Returned _) \<Rightarrow>
          ((st3, broadcastToConversation wss (Num (im_conversationId messageData))
                   (New_message newMessage) None),
           (201, Json_new_message newMessage))))))))"



section \<open>Concrete states\<close>

text \<open>
  A message, written in one line.
\<close>

definition msg :: "int \<Rightarrow> int \<Rightarrow> int \<Rightarrow> string \<Rightarrow> bool \<Rightarrow> date \<Rightarrow> Message" where
  "msg i c u txt r t =
     \<lparr>m_id = i, m_conversationId = c, m_senderId = u, m_content = txt, m_isRead = r,
      m_createdAt = t\<rparr>"

text \<open>
  In \<open>srv0\<close> connections 1, 2 and 4 are bound to conversation 7 and connection 3 to
  conversation 8; connection 4 is closed. \<open>srv1\<close> is the server after connections 1
  and 2 were accepted and connection 2 authenticated as user 2 for conversation 7:
  connection 1 has not authenticated.
\<close>

definition srv0 :: ws_server where
  "srv0 = \<lparr>connections =
              [(1, \<lparr>conn_userId = Some (Num 1), conn_conversationId = Some (Num 7)\<rparr>),
               (2, \<lparr>conn_userId = Some (Num 2), conn_conversationId = Some (Num 7)\<rparr>),
               (3, \<lparr>conn_userId = Some (Num 3), conn_conversationId = Some (Num 8)\<rparr>),
               (4, \<lparr>conn_userId = Some (Num 2), conn_conversationId = Some (Num 7)\<rparr>)],
            readyState = (\<lambda>_. OPEN)(4 := CLOSED),
            sent = []\<rparr>"

definition srv_start :: ws_server where
  "srv_start = \<lparr>connections = [], readyState = (\<lambda>_. OPEN), sent = []\<rparr>"

definition srv1 :: ws_server where
  "srv1 =
     on_message (on_connection (on_connection srv_start 1) 2) 2
       (Frame ''auth'' (Some \<lparr>fd_userId = JNum 2, fd_conversationId = JNum 7\<rparr>))"


text \<open>
  \<open>store_pet\<close> is an in-memory store holding pet 1 of user 1 and no conversation.
  \<open>store2\<close> is what three requests make of it: user 2 opens the conversation about pet
  1 with owner 1, then user 1 and user 2 each send a message, both in millisecond 100.
  The database \<open>db0\<close> holds conversation 7 between adopter 2 and owner 1; its third
  statement to come fails, in \<open>db1\<close> the fourth.
\<close>

definition pet1 :: Pet where
  "pet1 = \<lparr>p_id = 1, p_name = ''Max'', p_petType = ''dog'', p_breed = ''Labrador'',
            p_gender = ''male'', p_age = 3, p_ageGroup = ''adult'', p_size = ''large'',
            p_location = ''New York, NY'', p_description = ''Friendly'',
            p_goodWithChildren = Some True, p_goodWithDogs = Some True,
            p_goodWithCats = Some False, p_mainImage = ''max.jpg'',
            p_additionalImages = None, p_statusTag = None, p_ownerId = 1,
            p_adopted = False, p_createdAt = 10, p_updatedAt = 10\<rparr>"

definition store_pet :: MemStorage where
  "store_pet = empty_storage\<lparr>pets := [(1, pet1)], currentPetId := 2\<rparr>"

definition store_conv :: MemStorage where
  "store_conv =
     fst (post_conversations mem_storage store_pet (Some 2)
            (Some \<lparr>ic_petId = 1, ic_adopterId = 2, ic_ownerId = 1, ic_title = ''Max''\<rparr>) 90)"

definition store2 :: MemStorage where
  "store2 =
     fst (fst (post_messages mem_storage
                 (fst (post_messages mem_storage (store_conv, srv_start) (Some 1)
                         (Some \<lparr>im_conversationId = 1, im_content = ''a''\<rparr>) 100 100))
                 (Some 2) (Some \<lparr>im_conversationId = 1, im_content = ''b''\<rparr>) 100 100))"

definition db0 :: Database where
  "db0 = \<lparr>tbl_pets = [pet1],
           tbl_conversations =
             [\<lparr>c_id = 7, c_petId = 1, c_adopterId = 2, c_ownerId = 1, c_title = ''Max'',
               c_lastMessageAt = 50\<rparr>],
           tbl_messages = [],
           conversations_id_seq = 8,
           messages_id_seq = 1,
           failures = [False, False, True]\<rparr>"

definition db1 :: Database where
  "db1 = db0\<lparr>failures := [False, False, False, True]\<rparr>"

text \<open>
  The database \<open>db0\<close> with two messages in conversation 7, by users 1 and 2, and no
  failing statement.
\<close>

definition db2 :: Database where
  "db2 = db0\<lparr>tbl_messages := [msg 1 7 1 ''a'' False 100, msg 2 7 2 ''b'' False 100],
             messages_id_seq := 3,
             failures := []\<rparr>"

chapter \<open>Properties\<close>

section \<open>Maps and lists\<close>

lemma map_get_map_set_same: "map_get (map_set m k v) k = Some v"
  by (induction m) (auto simp: map_get_def)

lemma map_get_map_set_other: "k' \<noteq> k \<Longrightarrow> map_get (map_set m k v) k' = map_get m k'"
  by (induction m) (auto simp: map_get_def)

lemma map_get_map_set:
  "map_get (map_set m k v) k' = (if k' = k then Some v else map_get m k')"
  by (simp add: map_get_map_set_same map_get_map_set_other)

lemma map_get_map_delete:
  "map_get (map_delete m k) k' = (if k' = k then None else map_get m k')"
  by (induction m) (auto simp: map_get_def map_delete_def)

lemma map_keys_map_set_present:
  "map_get m k = Some v \<Longrightarrow> map_keys (map_set m k v') = map_keys m"
  by (induction m) (auto simp: map_get_def map_keys_def split: if_splits)

lemma map_get_Some_key: "map_get m k = Some v \<Longrightarrow> k \<in> set (map_keys m)"
  by (auto simp: map_get_def map_keys_def dest: map_of_SomeD intro: rev_image_eqI)

lemma set_map_keys_map_set: "set (map_keys (map_set m k v)) = insert k (set (map_keys m))"
  by (induction m) (auto simp: map_keys_def)

lemma set_map_keys_map_delete: "set (map_keys (map_delete m k)) = set (map_keys m) - {k}"
  by (auto simp: map_keys_def map_delete_def image_iff)

lemma map_of_filter_notin:
  "map_of (filter (\<lambda>q. fst q \<notin> K) ps) k = (if k \<in> K then None else map_of ps k)"
  by (induction ps) auto

lemma map_get_filter_notin:
  "map_get (filter (\<lambda>q. fst q \<notin> K) ps) k = (if k \<in> K then None else map_get ps k)"
  by (simp add: map_get_def map_of_filter_notin)


lemma find_append_new: "find P xs = None \<Longrightarrow> P x \<Longrightarrow> find P (xs @ [x]) = Some x"
  by (induction xs) (auto split: if_splits)



section \<open>Broadcast router: delivery\<close>

lemma broadcast_fold:
  "foldl (\<lambda>s' (client, connectionInfo).
            if readyState s' client = OPEN
               \<and> strict_eq (conn_conversationId connectionInfo) cid
               \<and> Some client \<noteq> ex
            then send s' client ev else s') s cs
   = s\<lparr>sent := sent s @ map (\<lambda>p. (fst p, ev))
        (filter (\<lambda>p. readyState s (fst p) = OPEN
                    \<and> strict_eq (conn_conversationId (snd p)) cid
                    \<and> Some (fst p) \<noteq> ex) cs)\<rparr>"
proof (induction cs arbitrary: s)
  case Nil
  show ?case by simp
next
  case (Cons p ps)
  obtain c i where p: "p = (c, i)" by (cases p)
  show ?case
    unfolding p by (simp add: Cons.IH send_def)
qed

lemma broadcast_sent:
  "broadcastToConversation s cid ev ex
   = s\<lparr>sent := sent s @ map (\<lambda>p. (fst p, ev)) (recipients s cid ex)\<rparr>"
  unfolding broadcastToConversation_def recipients_def by (rule broadcast_fold)

lemma strict_eq_imp_eq: "strict_eq a b \<Longrightarrow> a = Some b"
  by (cases a; cases b) (auto elim: strict_eq_num.elims)

lemma count_list_map_fst:
  "distinct (map fst ps) \<Longrightarrow>
   count_list (map (\<lambda>p. (fst p, ev)) (filter P ps)) (c, e)
   = (if e = ev \<and> (\<exists>i. map_of ps c = Some i \<and> P (c, i)) then 1 else 0)"
proof (induction ps)
  case Nil
  show ?case by simp
next
  case (Cons p ps)
  obtain k i where p: "p = (k, i)" by (cases p)
  from Cons.prems have notin: "k \<notin> fst ` set ps" and d: "distinct (map fst ps)"
    by (auto simp: p)
  have none: "map_of ps k = None" using notin by (simp add: map_of_eq_None_iff)
  show ?case
    using Cons.IH [OF d] none by (auto simp: p)
qed

lemma new_frames_broadcast:
  "new_frames s (broadcastToConversation s cid ev ex)
   = map (\<lambda>p. (fst p, ev)) (recipients s cid ex)"
  by (simp add: new_frames_def broadcast_sent)

text \<open>
  C1. \<open>broadcastToConversation\<close> calls \<open>send\<close> exactly once for every connection of
  the registry that is open, whose binding's conversationId \<open>===\<close> the published one and
  which is not the excluded connection, and for no other connection; a connection whose
  binding names another conversation receives nothing. The registry and the transport
  states are left as they were.
\<close>

theorem C1_broadcast_delivery:
  assumes "distinct (map_keys (connections s))"
  shows "sent (broadcastToConversation s cid ev ex)
           = sent s @ new_frames s (broadcastToConversation s cid ev ex)
         \<and> (\<forall>c e. count_list (new_frames s (broadcastToConversation s cid ev ex)) (c, e)
                = (if e = ev \<and> readyState s c = OPEN \<and> Some c \<noteq> ex
                      \<and> (\<exists>i. map_get (connections s) c = Some i
                              \<and> strict_eq (conn_conversationId i) cid)
                   then 1 else 0))
         \<and> (\<forall>c i e. map_get (connections s) c = Some i \<and> conn_conversationId i \<noteq> Some cid
                \<longrightarrow> (c, e) \<notin> set (new_frames s (broadcastToConversation s cid ev ex)))
         \<and> connections (broadcastToConversation s cid ev ex) = connections s
         \<and> readyState (broadcastToConversation s cid ev ex) = readyState s"
proof -
  let ?s' = "broadcastToConversation s cid ev ex"
  let ?P = "\<lambda>p. readyState s (fst p) = OPEN
                 \<and> strict_eq (conn_conversationId (snd p)) cid \<and> Some (fst p) \<noteq> ex"
  have d: "distinct (map fst (connections s))"
    using assms by (simp add: map_keys_def)
  have nf: "new_frames s ?s' = map (\<lambda>p. (fst p, ev)) (filter ?P (connections s))"
    by (simp add: new_frames_broadcast recipients_def)
  have cnt: "count_list (new_frames s ?s') (c, e)
                = (if e = ev \<and> readyState s c = OPEN \<and> Some c \<noteq> ex
                      \<and> (\<exists>i. map_get (connections s) c = Some i
                              \<and> strict_eq (conn_conversationId i) cid)
                   then 1 else 0)" for c e
    unfolding nf count_list_map_fst [OF d, of ev ?P c e] map_get_def by auto
  have iso: "(c, e) \<notin> set (new_frames s ?s')"
    if "map_get (connections s) c = Some i" "conn_conversationId i \<noteq> Some cid" for c i e
  proof -
    have "\<not> strict_eq (conn_conversationId i) cid"
      using that(2) strict_eq_imp_eq by blast
    then have "count_list (new_frames s ?s') (c, e) = 0"
      using that(1) by (simp add: cnt)
    then show ?thesis by (simp add: count_list_0_iff)
  qed
  have "sent ?s' = sent s @ new_frames s ?s'"
    unfolding nf by (simp add: broadcast_sent recipients_def)
  moreover have "connections ?s' = connections s" "readyState ?s' = readyState s"
    by (simp_all add: broadcast_sent)
  ultimately show ?thesis using cnt iso by blast
qed

theorem C1_broadcast_delivery_witness:
  "distinct (map_keys (connections srv0))
   \<and> count_list (new_frames srv0 (broadcastToConversation srv0 (Num 7) Pong (Some 1))) (2, Pong) = 1
   \<and> count_list (new_frames srv0 (broadcastToConversation srv0 (Num 7) Pong (Some 1))) (1, Pong) = 0
   \<and> (3, Pong) \<notin> set (new_frames srv0 (broadcastToConversation srv0 (Num 7) Pong (Some 1)))
   \<and> count_list (new_frames srv0 (broadcastToConversation srv0 (Num 7) Pong (Some 1))) (4, Pong) = 0"
proof -
  have d: "distinct (map_keys (connections srv0))"
    by (simp add: srv0_def map_keys_def)
  show ?thesis
    using d C1_broadcast_delivery [OF d, of "Num 7" Pong "Some 1"]
    by (simp add: srv0_def map_get_def)
qed

section \<open>Session protocol: frames of a connection that has not authenticated\<close>

lemma srv1_eq:
  "srv1 = \<lparr>connections =
              [(1, \<lparr>conn_userId = None, conn_conversationId = None\<rparr>),
               (2, \<lparr>conn_userId = Some (Num 2), conn_conversationId = Some (Num 7)\<rparr>)],
            readyState = (\<lambda>_. OPEN),
            sent = [(1, Connected ''Connected to PawMates Chat Server''),
                    (2, Connected ''Connected to PawMates Chat Server'')]\<rparr>"
  by (simp add: srv1_def srv_start_def on_connection_def on_message_def send_def)

text \<open>
  C5, as stated, fails: the message handler has no guard on the connection's state. A
  connection that never sent \<open>auth\<close> sends \<open>typing\<close> for conversation 7 and the frame
  reaches the connection bound to conversation 7; it sends \<open>ping\<close> and is answered.
\<close>

theorem C5_unauthenticated_counterexample:
  "unauthenticated srv1 1
   \<and> new_frames srv1
       (on_message srv1 1
          (Frame ''typing'' (Some \<lparr>fd_userId = JNum 1, fd_conversationId = JNum 7\<rparr>)))
     = [(2, Typing (JNum 1))]
   \<and> new_frames srv1 (on_message srv1 1 (Frame ''ping'' None)) = [(1, Pong)]"
  by (simp add: unauthenticated_def srv1_eq map_get_def on_message_def new_frames_def
        broadcastToConversation_def send_def)

text \<open>
  C5, amended. For a frame whose type is not \<open>auth\<close> the registry is never changed. A
  malformed frame, a frame of any other type than \<open>typing\<close>, \<open>stop_typing\<close> and \<open>ping\<close>,
  and a \<open>typing\<close> or \<open>stop_typing\<close> frame without data change nothing at all. A \<open>ping\<close>
  is answered with one \<open>pong\<close> to the sender. A \<open>typing\<close> or \<open>stop_typing\<close> frame with
  data is re-published to the open connections bound to the conversation the frame
  names, never to the sender. An \<open>auth\<close> frame with data installs the binding and sends
  nothing.
\<close>

theorem C5_unauthenticated_frames:
  assumes "unauthenticated s ws"
  shows "(type \<noteq> ''auth'' \<longrightarrow>
            connections (on_message s ws (Frame type data)) = connections s)
         \<and> on_message s ws Malformed = s
         \<and> (type \<notin> {''auth'', ''typing'', ''stop_typing'', ''ping''} \<longrightarrow>
              on_message s ws (Frame type data) = s)
         \<and> on_message s ws (Frame ''typing'' None) = s
         \<and> on_message s ws (Frame ''stop_typing'' None) = s
         \<and> new_frames s (on_message s ws (Frame ''ping'' data)) = [(ws, Pong)]
         \<and> (\<forall>c e. (c, e) \<in> set (new_frames s (on_message s ws (Frame ''typing'' (Some d))))
              \<longleftrightarrow> e = Typing (fd_userId d) \<and> c \<noteq> ws \<and> readyState s c = OPEN
                  \<and> (\<exists>i. (c, i) \<in> set (connections s)
                          \<and> strict_eq (conn_conversationId i) (parseInt (fd_conversationId d))))
         \<and> (\<forall>c e. (c, e) \<in> set (new_frames s (on_message s ws (Frame ''stop_typing'' (Some d))))
              \<longleftrightarrow> e = Stop_typing (fd_userId d) \<and> c \<noteq> ws \<and> readyState s c = OPEN
                  \<and> (\<exists>i. (c, i) \<in> set (connections s)
                          \<and> strict_eq (conn_conversationId i) (parseInt (fd_conversationId d))))
         \<and> map_get (connections (on_message s ws (Frame ''auth'' (Some d)))) ws
             = Some \<lparr>conn_userId = Some (parseInt (fd_userId d)),
                     conn_conversationId = Some (parseInt (fd_conversationId d))\<rparr>
         \<and> sent (on_message s ws (Frame ''auth'' (Some d))) = sent s"
proof -
  have a: "type \<noteq> ''auth'' \<longrightarrow> connections (on_message s ws (Frame type data)) = connections s"
    by (cases data) (simp_all add: on_message_def broadcast_sent send_def)
  have b: "type \<notin> {''auth'', ''typing'', ''stop_typing'', ''ping''} \<longrightarrow>
              on_message s ws (Frame type data) = s"
    by (simp add: on_message_def)
  have c: "new_frames s (on_message s ws (Frame ''ping'' data)) = [(ws, Pong)]"
    by (simp add: on_message_def send_def new_frames_def)
  have t: "new_frames s (on_message s ws (Frame ''typing'' (Some d)))
           = map (\<lambda>p. (fst p, Typing (fd_userId d)))
               (recipients s (parseInt (fd_conversationId d)) (Some ws))"
    by (simp add: on_message_def new_frames_broadcast)
  have e: "(c, e) \<in> set (new_frames s (on_message s ws (Frame ''typing'' (Some d))))
              \<longleftrightarrow> e = Typing (fd_userId d) \<and> c \<noteq> ws \<and> readyState s c = OPEN
                  \<and> (\<exists>i. (c, i) \<in> set (connections s)
                          \<and> strict_eq (conn_conversationId i) (parseInt (fd_conversationId d)))"
    for c e
    unfolding t recipients_def by (auto simp: image_iff)
  have t': "new_frames s (on_message s ws (Frame ''stop_typing'' (Some d)))
           = map (\<lambda>p. (fst p, Stop_typing (fd_userId d)))
               (recipients s (parseInt (fd_conversationId d)) (Some ws))"
    by (simp add: on_message_def new_frames_broadcast)
  have e': "(c, e) \<in> set (new_frames s (on_message s ws (Frame ''stop_typing'' (Some d))))
              \<longleftrightarrow> e = Stop_typing (fd_userId d) \<and> c \<noteq> ws \<and> readyState s c = OPEN
                  \<and> (\<exists>i. (c, i) \<in> set (connections s)
                          \<and> strict_eq (conn_conversationId i) (parseInt (fd_conversationId d)))"
    for c e
    unfolding t' recipients_def by (auto simp: image_iff)
  have f: "map_get (connections (on_message s ws (Frame ''auth'' (Some d)))) ws
             = Some \<lparr>conn_userId = Some (parseInt (fd_userId d)),
                     conn_conversationId = Some (parseInt (fd_conversationId d))\<rparr>"
    by (simp add: on_message_def map_get_map_set_same)
  have g: "sent (on_message s ws (Frame ''auth'' (Some d))) = sent s"
    by (simp add: on_message_def)
  have h: "on_message s ws Malformed = s" "on_message s ws (Frame ''typing'' None) = s"
    "on_message s ws (Frame ''stop_typing'' None) = s"
    by (simp_all add: on_message_def)
  show ?thesis using a b c e e' f g h by blast
qed

theorem C5_unauthenticated_frames_witness:
  "unauthenticated srv1 1
   \<and> connections (on_message srv1 1 (Frame ''ping'' None)) = connections srv1
   \<and> on_message srv1 1 (Frame ''new_message'' None) = srv1
   \<and> map_get (connections (on_message srv1 1
         (Frame ''auth'' (Some \<lparr>fd_userId = JNum 1, fd_conversationId = JStr ''7''\<rparr>)))) 1
       = Some \<lparr>conn_userId = Some (Num 1), conn_conversationId = Some (Num 7)\<rparr>"
proof -
  have u: "unauthenticated srv1 1"
    by (simp add: unauthenticated_def srv1_eq map_get_def)
  have p: "parseInt_string ''7'' = Num 7"
    by (simp add: parseInt_string_def is_space_def is_digit_def digit_value_def
          digits_to_int_def)
  show ?thesis
    using u C5_unauthenticated_frames [OF u, of "''ping''" None
        "\<lparr>fd_userId = JNum 1, fd_conversationId = JStr ''7''\<rparr>"]
      C5_unauthenticated_frames [OF u, of "''new_message''" None
        "\<lparr>fd_userId = JNum 1, fd_conversationId = JStr ''7''\<rparr>"]
    by (simp add: p)
qed

section \<open>Client: merging new messages by identity\<close>

lemma handleNewMessage_distinct:
  "distinct (map m_id (log_of cache)) \<Longrightarrow>
   distinct (map m_id (log_of (fst (handleNewMessage cid me cache m))))"
  by (cases cache)
     (auto simp: handleNewMessage_def handleNewMessage_update_def log_of_def list_ex_iff)

lemma apply_new_messages_distinct:
  "distinct (map m_id (log_of cache)) \<Longrightarrow>
   distinct (map m_id (log_of (apply_new_messages cid me cache ms)))"
  unfolding apply_new_messages_def
proof (induction ms arbitrary: cache)
  case Nil
  then show ?case by simp
next
  case (Cons m ms)
  from Cons.IH [OF handleNewMessage_distinct [OF Cons.prems]] show ?case by simp
qed

text \<open>
  C7. When a message with the same id is in the log, \<open>handleNewMessage\<close> leaves the log
  as it is; otherwise it appends the message once (an absent log becomes the one-message
  log). Applying the same message a second time changes nothing, and a log without
  repeated ids stays so under any sequence of new messages.
\<close>

theorem C7_new_message_idempotent:
  "(cache = Some xs \<and> (\<exists>x \<in> set xs. m_id x = m_id m) \<longrightarrow>
        fst (handleNewMessage cid me cache m) = Some xs)
   \<and> (cache = Some xs \<and> (\<forall>x \<in> set xs. m_id x \<noteq> m_id m) \<longrightarrow>
        fst (handleNewMessage cid me cache m) = Some (xs @ [m]))
   \<and> (cache = None \<longrightarrow> fst (handleNewMessage cid me cache m) = Some [m])
   \<and> fst (handleNewMessage cid me (fst (handleNewMessage cid me cache m)) m)
       = fst (handleNewMessage cid me cache m)
   \<and> (distinct (map m_id (log_of cache)) \<longrightarrow>
        distinct (map m_id (log_of (apply_new_messages cid me cache ms))))"
proof -
  have "(cache = Some xs \<and> (\<exists>x \<in> set xs. m_id x = m_id m) \<longrightarrow>
           fst (handleNewMessage cid me cache m) = Some xs)
        \<and> (cache = Some xs \<and> (\<forall>x \<in> set xs. m_id x \<noteq> m_id m) \<longrightarrow>
           fst (handleNewMessage cid me cache m) = Some (xs @ [m]))
        \<and> (cache = None \<longrightarrow> fst (handleNewMessage cid me cache m) = Some [m])
        \<and> fst (handleNewMessage cid me (fst (handleNewMessage cid me cache m)) m)
           = fst (handleNewMessage cid me cache m)"
    by (cases cache)
       (auto simp: handleNewMessage_def handleNewMessage_update_def list_ex_iff)
  then show ?thesis
    using apply_new_messages_distinct [of cache cid me ms] by blast
qed

theorem C7_new_message_idempotent_witness:
  "fst (handleNewMessage 7 2 (Some [msg 1 7 1 ''a'' False 10, msg 2 7 2 ''b'' False 20])
          (msg 2 7 2 ''b'' True 20))
     = Some [msg 1 7 1 ''a'' False 10, msg 2 7 2 ''b'' False 20]
   \<and> fst (handleNewMessage 7 2 (Some [msg 1 7 1 ''a'' False 10]) (msg 2 7 2 ''b'' False 20))
     = Some [msg 1 7 1 ''a'' False 10, msg 2 7 2 ''b'' False 20]
   \<and> distinct (map m_id (log_of (apply_new_messages 7 2 (Some [msg 1 7 1 ''a'' False 10])
        [msg 2 7 2 ''b'' False 20, msg 2 7 2 ''b'' False 20, msg 1 7 1 ''a'' False 10])))"
  using
    C7_new_message_idempotent [of "Some [msg 1 7 1 ''a'' False 10, msg 2 7 2 ''b'' False 20]"
      "[msg 1 7 1 ''a'' False 10, msg 2 7 2 ''b'' False 20]" "msg 2 7 2 ''b'' True 20" 7 2 "[]"]
    C7_new_message_idempotent [of "Some [msg 1 7 1 ''a'' False 10]"
      "[msg 1 7 1 ''a'' False 10]" "msg 2 7 2 ''b'' False 20" 7 2
      "[msg 2 7 2 ''b'' False 20, msg 2 7 2 ''b'' False 20, msg 1 7 1 ''a'' False 10]"]
  by (simp add: msg_def log_of_def)

section \<open>Client: the typing sweep\<close>








section \<open>Client: the hook never lists its own user as typing\<close>








section \<open>In-memory store: marking and reading messages\<close>

lemma mark_one_frame:
  "users (mark_one u s i) = users s"
  "pets (mark_one u s i) = pets s"
  "conversations (mark_one u s i) = conversations s"
  "currentUserId (mark_one u s i) = currentUserId s"
  "currentPetId (mark_one u s i) = currentPetId s"
  "currentConversationId (mark_one u s i) = currentConversationId s"
  "currentMessageId (mark_one u s i) = currentMessageId s"
  "map_keys (messages (mark_one u s i)) = map_keys (messages s)"
  by (auto simp: mark_one_def map_keys_map_set_present split: option.splits)

lemma mark_one_get:
  "map_get (messages (mark_one u s i)) k
   = (case map_get (messages s) k of
        None \<Rightarrow> None
      | Some m \<Rightarrow> Some (if k = i \<and> m_senderId m \<noteq> u then m\<lparr>m_isRead := True\<rparr> else m))"
  by (auto simp: mark_one_def map_get_map_set split: option.splits)

lemma markMessagesAsRead_frame:
  "users (markMessagesAsRead s ids u) = users s"
  "pets (markMessagesAsRead s ids u) = pets s"
  "conversations (markMessagesAsRead s ids u) = conversations s"
  "currentUserId (markMessagesAsRead s ids u) = currentUserId s"
  "currentPetId (markMessagesAsRead s ids u) = currentPetId s"
  "currentConversationId (markMessagesAsRead s ids u) = currentConversationId s"
  "currentMessageId (markMessagesAsRead s ids u) = currentMessageId s"
  "map_keys (messages (markMessagesAsRead s ids u)) = map_keys (messages s)"
  unfolding markMessagesAsRead_def
  by (induction ids arbitrary: s; simp add: mark_one_frame)+

lemma markMessagesAsRead_get:
  "map_get (messages (markMessagesAsRead s ids u)) k
   = (case map_get (messages s) k of
        None \<Rightarrow> None
      | Some m \<Rightarrow> Some (if k \<in> set ids \<and> m_senderId m \<noteq> u then m\<lparr>m_isRead := True\<rparr> else m))"
  unfolding markMessagesAsRead_def
proof (induction ids arbitrary: s)
  case Nil
  show ?case by (simp split: option.splits)
next
  case (Cons i ids)
  show ?case
    by (auto simp: Cons.IH mark_one_get split: option.splits)
qed

lemma delete_messages_fold:
  "foldl (\<lambda>s' msgId. s'\<lparr>messages := map_delete (messages s') msgId\<rparr>) s ids
   = s\<lparr>messages := filter (\<lambda>p. fst p \<notin> set ids) (messages s)\<rparr>"
proof (induction ids arbitrary: s)
  case Nil
  show ?case by simp
next
  case (Cons i ids)
  have h: "filter (\<lambda>p. fst p \<notin> set ids) (map_delete (messages s) i)
           = filter (\<lambda>p. fst p \<notin> set (i # ids)) (messages s)"
    by (auto simp: map_delete_def intro: filter_cong)
  show ?case
    by (simp add: Cons.IH h)
qed

lemma delete_conversation_frame:
  "currentMessageId (delete_conversation s c) = currentMessageId s"
  "set (map_keys (messages (delete_conversation s c))) \<subseteq> set (map_keys (messages s))"
  "map_get (messages (delete_conversation s c)) k = Some m \<Longrightarrow> map_get (messages s) k = Some m"
  by (auto simp: delete_conversation_def Let_def delete_messages_fold map_keys_def
        map_get_filter_notin split: if_splits)

lemma fold_delete_conversation_frame:
  "currentMessageId (foldl delete_conversation s cs) = currentMessageId s"
  "set (map_keys (messages (foldl delete_conversation s cs))) \<subseteq> set (map_keys (messages s))"
  "map_get (messages (foldl delete_conversation s cs)) k = Some m \<Longrightarrow> map_get (messages s) k = Some m"
proof (induction cs arbitrary: s)
  case Nil
  { case 1 show ?case by simp }
  { case 2 show ?case by simp }
  { case 3 then show ?case by simp }
next
  case (Cons c cs)
  { case 1 show ?case by (simp add: Cons.IH(1) delete_conversation_frame(1)) }
  { case 2 show ?case
      using Cons.IH(2) [of "delete_conversation s c"] delete_conversation_frame(2) [of s c]
      by auto }
  { case 3 then show ?case
      using Cons.IH(3) [of "delete_conversation s c"] delete_conversation_frame(3) [of s c k m]
      by simp }
qed

lemma deletePet_frame:
  "currentMessageId (deletePet s p) = currentMessageId s"
  "set (map_keys (messages (deletePet s p))) \<subseteq> set (map_keys (messages s))"
  "map_get (messages (deletePet s p)) k = Some m \<Longrightarrow> map_get (messages s) k = Some m"
  using fold_delete_conversation_frame [of "s\<lparr>pets := map_delete (pets s) p\<rparr>"]
  by (auto simp: deletePet_def Let_def)

lemma store_conv_eq:
  "store_conv =
     \<lparr>users = [], pets = [(1, pet1)],
      conversations =
        [(1, \<lparr>c_id = 1, c_petId = 1, c_adopterId = 2, c_ownerId = 1, c_title = ''Max'',
               c_lastMessageAt = 90\<rparr>)],
      messages = [],
      currentUserId = 1, currentPetId = 2, currentConversationId = 2, currentMessageId = 1\<rparr>"
  by (simp add: store_conv_def post_conversations_def mem_storage_def store_pet_def
        empty_storage_def getPet_def map_get_def getConversationByParticipants_def
        map_values_def createConversation_def Let_def)

lemma store2_eq:
  "store2 =
     \<lparr>users = [], pets = [(1, pet1)],
      conversations =
        [(1, \<lparr>c_id = 1, c_petId = 1, c_adopterId = 2, c_ownerId = 1, c_title = ''Max'',
               c_lastMessageAt = 100\<rparr>)],
      messages = [(1, msg 1 1 1 ''a'' False 100), (2, msg 2 1 2 ''b'' False 100)],
      currentUserId = 1, currentPetId = 2, currentConversationId = 2, currentMessageId = 3\<rparr>"
  by (simp add: store2_def store_conv_eq post_messages_def mem_storage_def getConversation_def
        map_get_def createMessage_def updateConversationLastMessageTime_def msg_def Let_def)

lemma createMessage_get:
  "message_ids_fresh s \<Longrightarrow> map_get (messages s) k = Some m \<Longrightarrow>
   map_get (messages (fst (createMessage s ins u now))) k = Some m"
  by (auto simp: createMessage_def Let_def map_get_map_set message_ids_fresh_def list_all_iff
        dest: map_get_Some_key)

lemma apply_op_get:
  assumes "message_ids_fresh s" "map_get (messages s) k = Some m"
    "map_get (messages (apply_op s op)) k = Some m'"
  shows "m' = m \<or> (\<exists>ids u. op = MarkMessagesAsRead ids u \<and> k \<in> set ids \<and> u \<noteq> m_senderId m
                       \<and> m' = m\<lparr>m_isRead := True\<rparr>)"
proof (cases op)
  case (CreateConversation ins now)
  then show ?thesis using assms by (simp add: createConversation_def Let_def)
next
  case (UpdateConversationLastMessageTime cid now)
  then show ?thesis using assms
    by (simp add: updateConversationLastMessageTime_def split: option.splits)
next
  case (CreateMessage ins u now)
  then show ?thesis using assms createMessage_get [OF assms(1,2), of ins u now] by simp
next
  case (MarkMessagesAsRead ids u)
  then show ?thesis using assms by (auto simp: markMessagesAsRead_get split: if_splits)
next
  case (DeletePet p)
  then show ?thesis using assms deletePet_frame(3) [of s p k m'] by simp
next
  case (WriteUsersPets us ps a b)
  then show ?thesis using assms by simp
qed

lemma apply_op_fresh:
  assumes "message_ids_fresh s"
  shows "message_ids_fresh (apply_op s op)"
proof (cases op)
  case (CreateConversation ins now)
  then show ?thesis using assms by (simp add: createConversation_def Let_def message_ids_fresh_def)
next
  case (UpdateConversationLastMessageTime cid now)
  then show ?thesis using assms
    by (simp add: updateConversationLastMessageTime_def message_ids_fresh_def split: option.splits)
next
  case (CreateMessage ins u now)
  then show ?thesis using assms
    by (auto simp: createMessage_def Let_def message_ids_fresh_def list_all_iff
          set_map_keys_map_set)
next
  case (MarkMessagesAsRead ids u)
  then show ?thesis using assms by (simp add: message_ids_fresh_def markMessagesAsRead_frame)
next
  case (DeletePet p)
  then show ?thesis using assms deletePet_frame(2) [of s p]
    by (auto simp: message_ids_fresh_def list_all_iff deletePet_frame(1))
next
  case (WriteUsersPets us ps a b)
  then show ?thesis using assms by (simp add: message_ids_fresh_def)
qed

text \<open>
  C10. \<open>markMessagesAsRead\<close> changes nothing but the \<open>isRead\<close> field of messages: every
  message keeps its id, conversation, sender, content and creation time; a message
  whose id is not listed is unchanged; no message is added or removed; users, pets and
  conversations are unchanged.
\<close>

theorem C10_mark_read_frame:
  "(\<forall>k m'. map_get (messages (markMessagesAsRead s ids reader)) k = Some m' \<longrightarrow>
        (\<exists>m. map_get (messages s) k = Some m
             \<and> m_id m' = m_id m \<and> m_conversationId m' = m_conversationId m
             \<and> m_senderId m' = m_senderId m \<and> m_content m' = m_content m
             \<and> m_createdAt m' = m_createdAt m))
   \<and> (\<forall>k. k \<notin> set ids \<longrightarrow>
        map_get (messages (markMessagesAsRead s ids reader)) k = map_get (messages s) k)
   \<and> map_keys (messages (markMessagesAsRead s ids reader)) = map_keys (messages s)
   \<and> users (markMessagesAsRead s ids reader) = users s
   \<and> pets (markMessagesAsRead s ids reader) = pets s
   \<and> conversations (markMessagesAsRead s ids reader) = conversations s"
  by (auto simp: markMessagesAsRead_get markMessagesAsRead_frame split: option.splits if_splits)

theorem C10_mark_read_frame_witness:
  "map_get (messages (markMessagesAsRead store2 [2] 1)) 1 = map_get (messages store2) 1
   \<and> map_keys (messages (markMessagesAsRead store2 [2] 1)) = [1, 2]
   \<and> conversations (markMessagesAsRead store2 [2] 1) = conversations store2"
proof -
  have "(1::int) \<notin> set [2]" by simp
  then show ?thesis
    using C10_mark_read_frame [of store2 "[2]" 1]
    by (simp add: store2_eq map_keys_def)
qed




section \<open>Database store: marking messages\<close>

lemma db_statement_cases:
  obtains d1 where "db_statement d = (d1, False)" "tbl_messages d1 = tbl_messages d"
  | d1 where "db_statement d = (d1, True)" "tbl_messages d1 = tbl_messages d"
  by (cases "failures d") (auto simp: db_statement_def)

lemma db_statement_fields:
  "db_statement d = (d1, ok) \<Longrightarrow>
   tbl_messages d1 = tbl_messages d \<and> messages_id_seq d1 = messages_id_seq d
   \<and> tbl_conversations d1 = tbl_conversations d \<and> tbl_pets d1 = tbl_pets d"
  by (auto simp: db_statement_def split: list.splits)

lemma db_statement_ok: "failures d = [] \<Longrightarrow> db_statement d = (d, True)"
  by (simp add: db_statement_def)

lemma mark_rows_ids: "map m_id (mark_rows S u rows) = map m_id rows"
  by (simp add: mark_rows_def)

lemma mark_rows_step:
  "mark_rows T u (mark_rows S u rows) = mark_rows (S \<union> T) u rows"
  by (auto simp: mark_rows_def)

lemma mark_rows_insert_absent:
  "find (\<lambda>m. m_id m = i) rows = None \<Longrightarrow> mark_rows (insert i S) u rows = mark_rows S u rows"
  by (auto simp: mark_rows_def find_None_iff)

lemma find_id_unique:
  "distinct (map m_id rows) \<Longrightarrow> find (\<lambda>m. m_id m = i) rows = Some x \<Longrightarrow>
   m \<in> set rows \<Longrightarrow> m_id m = i \<Longrightarrow> m = x"
  by (induction rows) (auto split: if_splits intro: rev_image_eqI)

lemma mark_rows_insert_own:
  "distinct (map m_id rows) \<Longrightarrow> find (\<lambda>m. m_id m = i) rows = Some x \<Longrightarrow> m_senderId x = u \<Longrightarrow>
   mark_rows (insert i S) u rows = mark_rows S u rows"
  by (auto simp: mark_rows_def dest: find_id_unique)

lemma mark_rows_single:
  "distinct (map m_id rows) \<Longrightarrow> find (\<lambda>m. m_id m = i) rows = Some x \<Longrightarrow> m_senderId x \<noteq> u \<Longrightarrow>
   map (\<lambda>m. if m_id m = i then m\<lparr>m_isRead := True\<rparr> else m) rows = mark_rows {i} u rows"
  by (auto simp: mark_rows_def dest: find_id_unique)

lemma db_mark_rows:
  "distinct (map m_id (tbl_messages d)) \<Longrightarrow>
   \<exists>S. S \<subseteq> set ids
     \<and> tbl_messages (fst (db_markMessagesAsRead d ids u)) = mark_rows S u (tbl_messages d)
     \<and> (snd (db_markMessagesAsRead d ids u) = Returned () \<longrightarrow> S = set ids)"
proof (induction ids arbitrary: d)
  case Nil
  have "tbl_messages d = mark_rows {} u (tbl_messages d)"
    by (simp add: mark_rows_def)
  then show ?case by auto
next
  case (Cons i ids)
  let ?rows = "tbl_messages d"
  have none: "mark_rows {} u ?rows = ?rows" by (simp add: mark_rows_def)
  show ?case
  proof (cases d rule: db_statement_cases)
    case (1 d1)
    then show ?thesis using none by (intro exI [of _ "{}"]) simp
  next
    case (2 d1)
    have d1: "distinct (map m_id (tbl_messages d1))" using Cons.prems 2(2) by simp
    show ?thesis
    proof (cases "find (\<lambda>message. m_id message = i) (tbl_messages d1)")
      case None
      obtain S where S: "S \<subseteq> set ids"
        "tbl_messages (fst (db_markMessagesAsRead d1 ids u)) = mark_rows S u (tbl_messages d1)"
        "snd (db_markMessagesAsRead d1 ids u) = Returned () \<longrightarrow> S = set ids"
        using Cons.IH [OF d1] by blast
      have eq: "db_markMessagesAsRead d (i # ids) u = db_markMessagesAsRead d1 ids u"
        using 2(1) None by simp
      have "mark_rows (insert i S) u ?rows = mark_rows S u ?rows"
        using None 2(2) by (simp add: mark_rows_insert_absent)
      then show ?thesis
        using S 2(2) unfolding eq by (intro exI [of _ "insert i S"]) auto
    next
      case (Some x)
      show ?thesis
      proof (cases "m_senderId x \<noteq> u")
        case False
        obtain S where S: "S \<subseteq> set ids"
          "tbl_messages (fst (db_markMessagesAsRead d1 ids u)) = mark_rows S u (tbl_messages d1)"
          "snd (db_markMessagesAsRead d1 ids u) = Returned () \<longrightarrow> S = set ids"
          using Cons.IH [OF d1] by blast
        have eq: "db_markMessagesAsRead d (i # ids) u = db_markMessagesAsRead d1 ids u"
          using 2(1) Some False by simp
        have "mark_rows (insert i S) u ?rows = mark_rows S u ?rows"
          using Some False 2(2) Cons.prems mark_rows_insert_own [of ?rows i x u S] by simp
        then show ?thesis
          using S 2(2) unfolding eq by (intro exI [of _ "insert i S"]) auto
      next
        case True
        show ?thesis
        proof (cases d1 rule: db_statement_cases)
          case (1 d2)
          have "db_markMessagesAsRead d (i # ids) u = (d2, Thrown)"
            using 2(1) Some True 1(1) by simp
          then show ?thesis using none 1(2) 2(2) by (intro exI [of _ "{}"]) simp
        next
          case (2 d2)
          let ?d3 = "d2\<lparr>tbl_messages :=
                         map (\<lambda>m. if m_id m = i then m\<lparr>m_isRead := True\<rparr> else m)
                             (tbl_messages d2)\<rparr>"
          have rows: "tbl_messages d2 = ?rows" using 2(2) \<open>tbl_messages d1 = tbl_messages d\<close> by simp
          have single: "tbl_messages ?d3 = mark_rows {i} u ?rows"
            using mark_rows_single [of ?rows i x u] Cons.prems Some True rows
              \<open>tbl_messages d1 = tbl_messages d\<close> by simp
          have d3: "distinct (map m_id (tbl_messages ?d3))"
            unfolding single mark_rows_ids using Cons.prems .
          obtain S where S: "S \<subseteq> set ids"
            "tbl_messages (fst (db_markMessagesAsRead ?d3 ids u)) = mark_rows S u (tbl_messages ?d3)"
            "snd (db_markMessagesAsRead ?d3 ids u) = Returned () \<longrightarrow> S = set ids"
            using Cons.IH [OF d3] by blast
          have eq: "db_markMessagesAsRead d (i # ids) u = db_markMessagesAsRead ?d3 ids u"
            using \<open>db_statement d = (d1, True)\<close> Some True 2(1) by simp
          have "mark_rows S u (tbl_messages ?d3) = mark_rows (insert i S) u ?rows"
            unfolding single mark_rows_step by simp
          then show ?thesis
            using S unfolding eq by (intro exI [of _ "insert i S"]) auto
        qed
      qed
    qed
  qed
qed

text \<open>
  \<open>DatabaseStorage.markMessagesAsRead\<close>, row by row: ids are kept, a row sent by the
  reader is unchanged, a row changes only by becoming read, being listed and being sent
  by someone else, and when the call returns every such row is read.
\<close>

lemma db_markMessagesAsRead_receipts:
  assumes "distinct (map m_id (tbl_messages d))"
  shows "map m_id (tbl_messages (fst (db_markMessagesAsRead d ids reader))) = map m_id (tbl_messages d)
       \<and> (\<forall>j < length (tbl_messages d).
            (m_senderId (tbl_messages d ! j) = reader \<longrightarrow>
               tbl_messages (fst (db_markMessagesAsRead d ids reader)) ! j = tbl_messages d ! j)
          \<and> (tbl_messages (fst (db_markMessagesAsRead d ids reader)) ! j = tbl_messages d ! j
              \<or> tbl_messages (fst (db_markMessagesAsRead d ids reader)) ! j
                   = (tbl_messages d ! j)\<lparr>m_isRead := True\<rparr>
                 \<and> m_id (tbl_messages d ! j) \<in> set ids
                 \<and> m_senderId (tbl_messages d ! j) \<noteq> reader)
          \<and> (snd (db_markMessagesAsRead d ids reader) = Returned ()
                \<and> m_id (tbl_messages d ! j) \<in> set ids
                \<and> m_senderId (tbl_messages d ! j) \<noteq> reader \<longrightarrow>
              tbl_messages (fst (db_markMessagesAsRead d ids reader)) ! j
                = (tbl_messages d ! j)\<lparr>m_isRead := True\<rparr>))"
proof -
  obtain S where S: "S \<subseteq> set ids"
    "tbl_messages (fst (db_markMessagesAsRead d ids reader)) = mark_rows S reader (tbl_messages d)"
    "snd (db_markMessagesAsRead d ids reader) = Returned () \<longrightarrow> S = set ids"
    using db_mark_rows [OF assms] by blast
  show ?thesis
    unfolding S(2) using S(1,3) by (auto simp: mark_rows_def)
qed

lemma db_update_fields:
  "tbl_messages (fst (db_updateConversationLastMessageTime d cid now)) = tbl_messages d
   \<and> messages_id_seq (fst (db_updateConversationLastMessageTime d cid now)) = messages_id_seq d"
  by (auto simp: db_updateConversationLastMessageTime_def split: prod.splits bool.splits
        dest: db_statement_fields)

lemma db_createConversation_fields:
  "tbl_messages (fst (db_createConversation d ins now)) = tbl_messages d
   \<and> messages_id_seq (fst (db_createConversation d ins now)) = messages_id_seq d"
  by (auto simp: db_createConversation_def Let_def split: prod.splits bool.splits
        dest: db_statement_fields)

lemma db_createMessage_rows:
  "(tbl_messages (fst (db_createMessage d ins u now)) = tbl_messages d
    \<and> messages_id_seq (fst (db_createMessage d ins u now)) = messages_id_seq d)
   \<or> (\<exists>new. tbl_messages (fst (db_createMessage d ins u now)) = tbl_messages d @ [new]
          \<and> m_id new = messages_id_seq d \<and> \<not> m_isRead new
          \<and> messages_id_seq (fst (db_createMessage d ins u now)) = messages_id_seq d + 1)"
proof (cases "db_statement d")
  case (Pair d1 ok)
  note f = db_statement_fields [OF Pair]
  show ?thesis
  proof (cases ok)
    case False
    then show ?thesis using Pair f by (simp add: db_createMessage_def)
  next
    case True
    let ?m = "\<lparr>m_id = messages_id_seq d1, m_conversationId = im_conversationId ins,
               m_senderId = u, m_content = im_content ins, m_isRead = False, m_createdAt = now\<rparr>"
    let ?d2 = "d1\<lparr>tbl_messages := tbl_messages d1 @ [?m],
                   messages_id_seq := messages_id_seq d1 + 1\<rparr>"
    have "fst (db_createMessage d ins u now)
          = fst (db_updateConversationLastMessageTime ?d2 (im_conversationId ins) now)"
      using Pair True
      by (simp add: db_createMessage_def Let_def split: prod.splits outcome.splits)
    then show ?thesis
      using db_update_fields [of ?d2 "im_conversationId ins" now] f by simp
  qed
qed

lemma db_deletePet_rows:
  "set (tbl_messages (fst (db_deletePet d pid))) \<subseteq> set (tbl_messages d)
   \<and> (distinct (map m_id (tbl_messages d)) \<longrightarrow>
        distinct (map m_id (tbl_messages (fst (db_deletePet d pid)))))
   \<and> messages_id_seq (fst (db_deletePet d pid)) = messages_id_seq d"
proof (cases "db_statement d")
  case (Pair d1 ok)
  note f = db_statement_fields [OF Pair]
  show ?thesis
    using Pair f by (cases ok) (auto simp: db_deletePet_def Let_def distinct_map_filter)
qed

lemma db_mark_fields:
  "messages_id_seq (fst (db_markMessagesAsRead d ids u)) = messages_id_seq d"
proof (induction ids arbitrary: d)
  case Nil
  show ?case by simp
next
  case (Cons i ids)
  show ?case
  proof (cases d rule: db_statement_cases)
    case (1 d1)
    then show ?thesis using db_statement_fields [OF 1(1)] by simp
  next
    case (2 d1)
    note f1 = db_statement_fields [OF 2(1)]
    show ?thesis
    proof (cases d1 rule: db_statement_cases)
      case (1 d2)
      note f2 = db_statement_fields [OF 1(1)]
      show ?thesis
        using \<open>db_statement d = (d1, True)\<close> 1(1) f1 f2 Cons.IH [of d1]
        by (simp split: option.splits)
    next
      case (2 d2)
      note f2 = db_statement_fields [OF 2(1)]
      show ?thesis
        using \<open>db_statement d = (d1, True)\<close> 2(1) f1 f2 Cons.IH [of d1]
          Cons.IH [of "d2\<lparr>tbl_messages :=
                         map (\<lambda>m. if m_id m = i then m\<lparr>m_isRead := True\<rparr> else m)
                             (tbl_messages d2)\<rparr>"]
        by (simp split: option.splits)
    qed
  qed
qed

lemma db_apply_op_rows:
  assumes "db_message_ids_ok d" "m \<in> set (tbl_messages d)"
    "m' \<in> set (tbl_messages (db_apply_op d op))" "m_id m' = m_id m"
  shows "m' = m \<or> (\<exists>ids u. op = DbMarkMessagesAsRead ids u \<and> m_id m \<in> set ids
                      \<and> u \<noteq> m_senderId m \<and> m' = m\<lparr>m_isRead := True\<rparr>)"
proof -
  have dist: "distinct (map m_id (tbl_messages d))"
    and fresh: "\<forall>x \<in> set (tbl_messages d). m_id x < messages_id_seq d"
    using assms(1) by (simp_all add: db_message_ids_ok_def list_all_iff)
  have uniq: "x = m" if "x \<in> set (tbl_messages d)" "m_id x = m_id m" for x
    using dist that assms(2) by (meson distinct_map inj_onD)
  show ?thesis
  proof (cases op)
    case (DbCreateConversation ins now)
    then show ?thesis using assms(3,4) uniq by (simp add: db_createConversation_fields)
  next
    case (DbUpdateConversationLastMessageTime cid now)
    then show ?thesis using assms(3,4) uniq by (simp add: db_update_fields)
  next
    case (DbCreateMessage ins u now)
    have lt: "m_id m < messages_id_seq d" using fresh assms(2) by blast
    show ?thesis
      using assms(3,4) uniq lt db_createMessage_rows [of d ins u now]
      unfolding DbCreateMessage by auto
  next
    case (DbMarkMessagesAsRead ids u)
    obtain S where S: "S \<subseteq> set ids"
      "tbl_messages (fst (db_markMessagesAsRead d ids u)) = mark_rows S u (tbl_messages d)"
      using db_mark_rows [OF dist] by blast
    from assms(3) obtain x where x: "x \<in> set (tbl_messages d)"
      "m' = (if m_id x \<in> S \<and> m_senderId x \<noteq> u then x\<lparr>m_isRead := True\<rparr> else x)"
      unfolding DbMarkMessagesAsRead by (auto simp: S(2) mark_rows_def)
    have "m_id x = m_id m" using x(2) assms(4) by (simp split: if_splits)
    then have "x = m" using uniq x(1) by simp
    then show ?thesis using x(2) S(1) DbMarkMessagesAsRead by auto
  next
    case (DbDeletePet pid)
    then show ?thesis using assms(3,4) uniq db_deletePet_rows [of d pid] by auto
  qed
qed

lemma db_apply_op_ok:
  assumes "db_message_ids_ok d"
  shows "db_message_ids_ok (db_apply_op d op)"
proof (cases op)
  case (DbCreateConversation ins now)
  then show ?thesis using assms by (simp add: db_message_ids_ok_def db_createConversation_fields)
next
  case (DbUpdateConversationLastMessageTime cid now)
  then show ?thesis using assms by (simp add: db_message_ids_ok_def db_update_fields)
next
  case (DbCreateMessage ins u now)
  have dist: "distinct (map m_id (tbl_messages d))"
    and fresh: "\<forall>x \<in> set (tbl_messages d). m_id x < messages_id_seq d"
    using assms by (simp_all add: db_message_ids_ok_def list_all_iff)
  let ?d' = "fst (db_createMessage d ins u now)"
  consider "tbl_messages ?d' = tbl_messages d" "messages_id_seq ?d' = messages_id_seq d"
    | new where "tbl_messages ?d' = tbl_messages d @ [new]" "m_id new = messages_id_seq d"
        "messages_id_seq ?d' = messages_id_seq d + 1"
    using db_createMessage_rows [of d ins u now] by blast
  then have "db_message_ids_ok ?d'"
  proof cases
    case 1
    then show ?thesis using assms by (simp add: db_message_ids_ok_def)
  next
    case 2
    have "m_id new \<notin> m_id ` set (tbl_messages d)"
      using fresh 2(2) by force
    then show ?thesis
      using 2 dist fresh by (auto simp: db_message_ids_ok_def list_all_iff)
  qed
  then show ?thesis by (simp add: DbCreateMessage)
next
  case (DbMarkMessagesAsRead ids u)
  have dist: "distinct (map m_id (tbl_messages d))"
    using assms by (simp add: db_message_ids_ok_def)
  obtain S where S:
    "tbl_messages (fst (db_markMessagesAsRead d ids u)) = mark_rows S u (tbl_messages d)"
    using db_mark_rows [OF dist] by blast
  have "map m_id (tbl_messages (fst (db_markMessagesAsRead d ids u))) = map m_id (tbl_messages d)"
    by (simp add: S mark_rows_ids)
  moreover have "list_all (\<lambda>m. m_id m < messages_id_seq d) (mark_rows S u (tbl_messages d))"
    using assms by (auto simp: db_message_ids_ok_def list_all_iff mark_rows_def)
  ultimately show ?thesis
    using DbMarkMessagesAsRead dist by (simp add: db_message_ids_ok_def db_mark_fields S)
next
  case (DbDeletePet pid)
  then show ?thesis
    using assms db_deletePet_rows [of d pid]
    by (auto simp: db_message_ids_ok_def list_all_iff)
qed

section \<open>Read receipts\<close>

text \<open>
  C3. In both stores \<open>markMessagesAsRead\<close> leaves every message sent by the reader
  exactly as it is (so an unread one stays unread) and marks the listed messages of
  other senders. Over all writing operations of a store whose message ids are unique
  and behind the id counter: a message that turns from unread to read does so through
  \<open>markMessagesAsRead\<close> by a reader who is not its sender, a read message that is still
  stored is still read, and the condition on the ids is kept. The first five parts are
  about \<open>MemStorage\<close>, the last four about \<open>DatabaseStorage\<close>.
\<close>

theorem C3_read_receipts:
  assumes "message_ids_fresh s" and "db_message_ids_ok d"
  shows "(\<forall>k m. map_get (messages s) k = Some m \<and> m_senderId m = reader \<longrightarrow>
            map_get (messages (markMessagesAsRead s ids reader)) k = Some m)
       \<and> (\<forall>k m. map_get (messages s) k = Some m \<and> k \<in> set ids \<and> m_senderId m \<noteq> reader \<longrightarrow>
            map_get (messages (markMessagesAsRead s ids reader)) k = Some (m\<lparr>m_isRead := True\<rparr>))
       \<and> (\<forall>op k m m'. map_get (messages s) k = Some m \<and> \<not> m_isRead m
              \<and> map_get (messages (apply_op s op)) k = Some m' \<and> m_isRead m' \<longrightarrow>
            (\<exists>ids' u. op = MarkMessagesAsRead ids' u \<and> k \<in> set ids' \<and> u \<noteq> m_senderId m))
       \<and> (\<forall>op k m m'. map_get (messages s) k = Some m \<and> m_isRead m
              \<and> map_get (messages (apply_op s op)) k = Some m' \<longrightarrow> m_isRead m')
       \<and> (\<forall>op. message_ids_fresh (apply_op s op))
       \<and> (\<forall>j < length (tbl_messages d).
            (m_senderId (tbl_messages d ! j) = reader \<longrightarrow>
               tbl_messages (fst (db_markMessagesAsRead d ids reader)) ! j = tbl_messages d ! j)
          \<and> (tbl_messages (fst (db_markMessagesAsRead d ids reader)) ! j = tbl_messages d ! j
              \<or> tbl_messages (fst (db_markMessagesAsRead d ids reader)) ! j
                   = (tbl_messages d ! j)\<lparr>m_isRead := True\<rparr>
                 \<and> m_id (tbl_messages d ! j) \<in> set ids
                 \<and> m_senderId (tbl_messages d ! j) \<noteq> reader)
          \<and> (snd (db_markMessagesAsRead d ids reader) = Returned ()
                \<and> m_id (tbl_messages d ! j) \<in> set ids
                \<and> m_senderId (tbl_messages d ! j) \<noteq> reader \<longrightarrow>
              tbl_messages (fst (db_markMessagesAsRead d ids reader)) ! j
                = (tbl_messages d ! j)\<lparr>m_isRead := True\<rparr>))
       \<and> (\<forall>op m m'. m \<in> set (tbl_messages d) \<and> m' \<in> set (tbl_messages (db_apply_op d op))
              \<and> m_id m' = m_id m \<and> \<not> m_isRead m \<and> m_isRead m' \<longrightarrow>
            (\<exists>ids' u. op = DbMarkMessagesAsRead ids' u \<and> m_id m \<in> set ids' \<and> u \<noteq> m_senderId m))
       \<and> (\<forall>op m m'. m \<in> set (tbl_messages d) \<and> m' \<in> set (tbl_messages (db_apply_op d op))
              \<and> m_id m' = m_id m \<and> m_isRead m \<longrightarrow> m_isRead m')
       \<and> (\<forall>op. db_message_ids_ok (db_apply_op d op))"
proof -
  have dist: "distinct (map m_id (tbl_messages d))"
    using assms(2) by (simp add: db_message_ids_ok_def)
  have m1: "\<forall>k m. map_get (messages s) k = Some m \<and> m_senderId m = reader \<longrightarrow>
            map_get (messages (markMessagesAsRead s ids reader)) k = Some m"
    by (simp add: markMessagesAsRead_get)
  have m2: "\<forall>k m. map_get (messages s) k = Some m \<and> k \<in> set ids \<and> m_senderId m \<noteq> reader \<longrightarrow>
            map_get (messages (markMessagesAsRead s ids reader)) k = Some (m\<lparr>m_isRead := True\<rparr>)"
    by (simp add: markMessagesAsRead_get)
  have m3: "\<forall>op k m m'. map_get (messages s) k = Some m \<and> \<not> m_isRead m
              \<and> map_get (messages (apply_op s op)) k = Some m' \<and> m_isRead m' \<longrightarrow>
            (\<exists>ids' u. op = MarkMessagesAsRead ids' u \<and> k \<in> set ids' \<and> u \<noteq> m_senderId m)"
    using apply_op_get [OF assms(1)] by blast
  have m4: "\<forall>op k m m'. map_get (messages s) k = Some m \<and> m_isRead m
              \<and> map_get (messages (apply_op s op)) k = Some m' \<longrightarrow> m_isRead m'"
  proof (intro allI impI)
    fix op k m m'
    assume a: "map_get (messages s) k = Some m \<and> m_isRead m
              \<and> map_get (messages (apply_op s op)) k = Some m'"
    then show "m_isRead m'"
      using apply_op_get [OF assms(1), of k m op m'] by auto
  qed
  have m5: "\<forall>op. message_ids_fresh (apply_op s op)"
    using apply_op_fresh [OF assms(1)] by blast
  note d1 = db_markMessagesAsRead_receipts [OF dist, of ids reader, THEN conjunct2]
  have d3: "\<forall>op m m'. m \<in> set (tbl_messages d) \<and> m' \<in> set (tbl_messages (db_apply_op d op))
              \<and> m_id m' = m_id m \<and> \<not> m_isRead m \<and> m_isRead m' \<longrightarrow>
            (\<exists>ids' u. op = DbMarkMessagesAsRead ids' u \<and> m_id m \<in> set ids' \<and> u \<noteq> m_senderId m)"
    using db_apply_op_rows [OF assms(2)] by blast
  have d4: "\<forall>op m m'. m \<in> set (tbl_messages d) \<and> m' \<in> set (tbl_messages (db_apply_op d op))
              \<and> m_id m' = m_id m \<and> m_isRead m \<longrightarrow> m_isRead m'"
  proof (intro allI impI)
    fix op m m'
    assume a: "m \<in> set (tbl_messages d) \<and> m' \<in> set (tbl_messages (db_apply_op d op))
              \<and> m_id m' = m_id m \<and> m_isRead m"
    then show "m_isRead m'"
      using db_apply_op_rows [OF assms(2), of m m' op] by auto
  qed
  have d5: "\<forall>op. db_message_ids_ok (db_apply_op d op)"
    using db_apply_op_ok [OF assms(2)] by blast
  show ?thesis
    using m1 m2 m3 m4 m5 d1 d3 d4 d5 by (intro conjI)
qed

theorem C3_read_receipts_witness:
  "message_ids_fresh store2
   \<and> db_message_ids_ok db2
   \<and> map_get (messages (markMessagesAsRead store2 [1, 2] 1)) 1 = Some (msg 1 1 1 ''a'' False 100)
   \<and> map_get (messages (markMessagesAsRead store2 [1, 2] 1)) 2 = Some (msg 2 1 2 ''b'' True 100)
   \<and> message_ids_fresh (apply_op store2 (CreateMessage \<lparr>im_conversationId = 1, im_content = ''c''\<rparr> 1 101))
   \<and> tbl_messages (fst (db_markMessagesAsRead db2 [1, 2] 1)) ! 0 = msg 1 7 1 ''a'' False 100
   \<and> tbl_messages (fst (db_markMessagesAsRead db2 [1, 2] 1)) ! 1 = msg 2 7 2 ''b'' True 100"
proof -
  have f: "message_ids_fresh store2"
    by (simp add: store2_eq message_ids_fresh_def map_keys_def)
  have g: "db_message_ids_ok db2"
    by (simp add: db_message_ids_ok_def db2_def db0_def msg_def)
  have a: "map_get (messages store2) 1 = Some (msg 1 1 1 ''a'' False 100)
           \<and> m_senderId (msg 1 1 1 ''a'' False 100) = 1"
    by (simp add: store2_eq map_get_def msg_def)
  have b: "map_get (messages store2) 2 = Some (msg 2 1 2 ''b'' False 100)
           \<and> 2 \<in> set [1, 2::int] \<and> m_senderId (msg 2 1 2 ''b'' False 100) \<noteq> 1"
    by (simp add: store2_eq map_get_def msg_def)
  have c: "(msg 2 1 2 ''b'' False 100)\<lparr>m_isRead := True\<rparr> = msg 2 1 2 ''b'' True 100"
    "(msg 2 7 2 ''b'' False 100)\<lparr>m_isRead := True\<rparr> = msg 2 7 2 ''b'' True 100"
    by (simp_all add: msg_def)
  have r0: "(0::nat) < length (tbl_messages db2) \<and> tbl_messages db2 ! 0 = msg 1 7 1 ''a'' False 100
            \<and> m_senderId (tbl_messages db2 ! 0) = 1"
    by (simp add: db2_def db0_def msg_def)
  have r1: "(1::nat) < length (tbl_messages db2) \<and> tbl_messages db2 ! 1 = msg 2 7 2 ''b'' False 100
            \<and> m_id (tbl_messages db2 ! 1) \<in> set [1, 2] \<and> m_senderId (tbl_messages db2 ! 1) \<noteq> 1"
    by (simp add: db2_def db0_def msg_def)
  have ret: "snd (db_markMessagesAsRead db2 [1, 2] 1) = Returned ()"
    by (simp add: db2_def db0_def msg_def db_statement_def)
  note t = C3_read_receipts [OF f g, of 1 "[1, 2]"]
  have w1: "map_get (messages (markMessagesAsRead store2 [1, 2] 1)) 1
            = Some (msg 1 1 1 ''a'' False 100)"
    by (rule t [THEN conjunct1, rule_format, OF a])
  have w2: "map_get (messages (markMessagesAsRead store2 [1, 2] 1)) 2
            = Some ((msg 2 1 2 ''b'' False 100)\<lparr>m_isRead := True\<rparr>)"
    by (rule t [THEN conjunct2, THEN conjunct1, rule_format, OF b])
  have w3: "message_ids_fresh (apply_op store2
              (CreateMessage \<lparr>im_conversationId = 1, im_content = ''c''\<rparr> 1 101))"
    by (rule t [THEN conjunct2, THEN conjunct2, THEN conjunct2, THEN conjunct2, THEN conjunct1,
          rule_format])
  note rows = t [THEN conjunct2, THEN conjunct2, THEN conjunct2, THEN conjunct2, THEN conjunct2,
    THEN conjunct1]
  from rows [rule_format, of 0] r0
  have w4: "tbl_messages (fst (db_markMessagesAsRead db2 [1, 2] 1)) ! 0 = tbl_messages db2 ! 0"
    by blast
  from rows [rule_format, of 1] r1 ret
  have w5: "tbl_messages (fst (db_markMessagesAsRead db2 [1, 2] 1)) ! 1
            = (tbl_messages db2 ! 1)\<lparr>m_isRead := True\<rparr>"
    by blast
  show ?thesis
    using f g w1 w2 w3 w4 w5 r0 r1 c by (simp del: db_markMessagesAsRead.simps)
qed

section \<open>Creating a conversation is idempotent\<close>













lemma db_post_conversations_existing:
  assumes "failures d = []" "find (\<lambda>pet. p_id pet = ic_petId c) (tbl_pets d) = Some pet"
    "u = ic_adopterId c \<or> u = ic_ownerId c"
    "find (\<lambda>conversation. c_petId conversation = ic_petId c
             \<and> c_adopterId conversation = ic_adopterId c
             \<and> c_ownerId conversation = ic_ownerId c) (tbl_conversations d) = Some conv"
  shows "post_conversations db_storage d (Some u) (Some c) now = (d, (200, Json_conversation conv))"
  using assms
  by (auto simp: post_conversations_def db_storage_def db_getPet_def
        db_getConversationByParticipants_def db_statement_ok)

lemma db_post_conversations_new:
  assumes "failures d = []" "find (\<lambda>pet. p_id pet = ic_petId c) (tbl_pets d) = Some pet"
    "u = ic_adopterId c \<or> u = ic_ownerId c"
    "find (\<lambda>conversation. c_petId conversation = ic_petId c
             \<and> c_adopterId conversation = ic_adopterId c
             \<and> c_ownerId conversation = ic_ownerId c) (tbl_conversations d) = None"
  shows "post_conversations db_storage d (Some u) (Some c) now
         = (fst (db_createConversation d c now),
            (201, Json_conversation
                    \<lparr>c_id = conversations_id_seq d, c_petId = ic_petId c,
                     c_adopterId = ic_adopterId c, c_ownerId = ic_ownerId c,
                     c_title = ic_title c, c_lastMessageAt = now\<rparr>))"
  using assms
  by (auto simp: post_conversations_def db_storage_def db_getPet_def
        db_getConversationByParticipants_def db_createConversation_def db_statement_ok Let_def)

text \<open>
  The same on the database store, when no statement fails: two successive requests for
  one triple return the same conversation and the second one writes nothing.
\<close>

lemma db_create_conversation_idempotent:
  assumes "failures d = []"
    and "find (\<lambda>pet. p_id pet = ic_petId c) (tbl_pets d) = Some pet"
    and "u = ic_adopterId c \<or> u = ic_ownerId c"
    and "u' = ic_adopterId c \<or> u' = ic_ownerId c"
    and "ic_petId c' = ic_petId c \<and> ic_adopterId c' = ic_adopterId c \<and> ic_ownerId c' = ic_ownerId c"
  shows "\<exists>conv code.
           post_conversations db_storage d (Some u) (Some c) now
             = (fst (post_conversations db_storage d (Some u) (Some c) now),
                (code, Json_conversation conv))
         \<and> post_conversations db_storage
              (fst (post_conversations db_storage d (Some u) (Some c) now))
              (Some u') (Some c') now'
             = (fst (post_conversations db_storage d (Some u) (Some c) now),
                (200, Json_conversation conv))"
proof (cases "find (\<lambda>conversation. c_petId conversation = ic_petId c
             \<and> c_adopterId conversation = ic_adopterId c
             \<and> c_ownerId conversation = ic_ownerId c) (tbl_conversations d)")
  case None
  let ?conv = "\<lparr>c_id = conversations_id_seq d, c_petId = ic_petId c,
                     c_adopterId = ic_adopterId c, c_ownerId = ic_ownerId c,
                     c_title = ic_title c, c_lastMessageAt = now\<rparr>"
  let ?d1 = "fst (db_createConversation d c now)"
  have d1: "?d1 = d\<lparr>tbl_conversations := tbl_conversations d @ [?conv],
                     conversations_id_seq := conversations_id_seq d + 1\<rparr>"
    using assms(1) by (simp add: db_createConversation_def db_statement_ok Let_def)
  have p1: "post_conversations db_storage d (Some u) (Some c) now = (?d1, (201, Json_conversation ?conv))"
    by (rule db_post_conversations_new [OF assms(1,2,3) None])
  have f: "failures ?d1 = []" using assms(1) by (simp add: d1)
  have pet: "find (\<lambda>pet. p_id pet = ic_petId c') (tbl_pets ?d1) = Some pet"
    using assms(2,5) by (simp add: d1)
  have u': "u' = ic_adopterId c' \<or> u' = ic_ownerId c'" using assms(4,5) by simp
  have look: "find (\<lambda>conversation. c_petId conversation = ic_petId c'
             \<and> c_adopterId conversation = ic_adopterId c'
             \<and> c_ownerId conversation = ic_ownerId c') (tbl_conversations ?d1) = Some ?conv"
    using None assms(5) by (simp add: d1 find_append_new)
  have p2: "post_conversations db_storage ?d1 (Some u') (Some c') now' = (?d1, (200, Json_conversation ?conv))"
    by (rule db_post_conversations_existing [OF f pet u' look])
  show ?thesis using p1 p2 by simp
next
  case (Some conv)
  have p1: "post_conversations db_storage d (Some u) (Some c) now = (d, (200, Json_conversation conv))"
    by (rule db_post_conversations_existing [OF assms(1,2,3) Some])
  have pet: "find (\<lambda>pet. p_id pet = ic_petId c') (tbl_pets d) = Some pet"
    using assms(2,5) by simp
  have u': "u' = ic_adopterId c' \<or> u' = ic_ownerId c'" using assms(4,5) by simp
  have look: "find (\<lambda>conversation. c_petId conversation = ic_petId c'
             \<and> c_adopterId conversation = ic_adopterId c'
             \<and> c_ownerId conversation = ic_ownerId c') (tbl_conversations d) = Some conv"
    using Some assms(5) by simp
  have p2: "post_conversations db_storage d (Some u') (Some c') now' = (d, (200, Json_conversation conv))"
    by (rule db_post_conversations_existing [OF assms(1) pet u' look])
  show ?thesis using p1 p2 by simp
qed

section \<open>Sending a message when the store fails\<close>

text \<open>
  C4, as stated, fails on the database store. The send-message request finds the
  conversation, inserts the message, and then the update of \<open>lastMessageAt\<close> throws: the
  request is answered 500 and nothing is broadcast, but the inserted message stays.
\<close>

theorem C4_partial_write_counterexample:
  "post_messages db_storage (db0, srv0) (Some 2)
      (Some \<lparr>im_conversationId = 7, im_content = ''Hello''\<rparr>) 100 101
   = ((db0\<lparr>tbl_messages := [msg 1 7 2 ''Hello'' False 100], messages_id_seq := 2, failures := []\<rparr>,
       srv0),
      (500, Json_message ''Error creating message''))
   \<and> tbl_messages db0 = []"
  by (simp add: post_messages_def db_storage_def db0_def db_getConversation_def db_statement_def
        db_createMessage_def db_updateConversationLastMessageTime_def msg_def Let_def)

text \<open>
  C4, amended. Whatever the store implementation: a request that does not end with
  status 201 broadcasts nothing; when reading the conversation, creating the message or
  updating \<open>lastMessageAt\<close> throws, the answer is status 500 and nothing is broadcast,
  and the store is left as the throwing call left it, with the writes made before it;
  when all three succeed the stored message is broadcast after the writes and returned
  with status 201.
\<close>

theorem C4_send_message_failure:
  "(fst (snd (post_messages S (st, wss) user parsed now1 now2)) \<noteq> 201 \<longrightarrow>
       snd (fst (post_messages S (st, wss) user parsed now1 now2)) = wss)
   \<and> (st_getConversation S st (im_conversationId md) = (st1, Thrown) \<longrightarrow>
       post_messages S (st, wss) (Some u) (Some md) now1 now2
         = ((st1, wss), (500, Json_message ''Error creating message'')))
   \<and> (st_getConversation S st (im_conversationId md) = (st1, Returned (Some c))
        \<and> (u = c_adopterId c \<or> u = c_ownerId c)
        \<and> st_createMessage S st1 md u now1 = (st2, Thrown) \<longrightarrow>
       post_messages S (st, wss) (Some u) (Some md) now1 now2
         = ((st2, wss), (500, Json_message ''Error creating message'')))
   \<and> (st_getConversation S st (im_conversationId md) = (st1, Returned (Some c))
        \<and> (u = c_adopterId c \<or> u = c_ownerId c)
        \<and> st_createMessage S st1 md u now1 = (st2, Returned m)
        \<and> st_updateConversationLastMessageTime S st2 (im_conversationId md) now2 = (st3, Thrown) \<longrightarrow>
       post_messages S (st, wss) (Some u) (Some md) now1 now2
         = ((st3, wss), (500, Json_message ''Error creating message'')))
   \<and> (st_getConversation S st (im_conversationId md) = (st1, Returned (Some c))
        \<and> (u = c_adopterId c \<or> u = c_ownerId c)
        \<and> st_createMessage S st1 md u now1 = (st2, Returned m)
        \<and> st_updateConversationLastMessageTime S st2 (im_conversationId md) now2 = (st3, Returned ()) \<longrightarrow>
       post_messages S (st, wss) (Some u) (Some md) now1 now2
         = ((st3, broadcastToConversation wss (Num (im_conversationId md)) (New_message m) None),
            (201, Json_new_message m)))"
proof -
  have a: "fst (snd (post_messages S (st, wss) user parsed now1 now2)) \<noteq> 201 \<longrightarrow>
       snd (fst (post_messages S (st, wss) user parsed now1 now2)) = wss"
    by (auto simp: post_messages_def split: option.splits prod.splits outcome.splits)
  have b: "st_getConversation S st (im_conversationId md) = (st1, Thrown) \<longrightarrow>
       post_messages S (st, wss) (Some u) (Some md) now1 now2
         = ((st1, wss), (500, Json_message ''Error creating message''))"
    by (simp add: post_messages_def)
  have c: "st_getConversation S st (im_conversationId md) = (st1, Returned (Some c))
        \<and> (u = c_adopterId c \<or> u = c_ownerId c)
        \<and> st_createMessage S st1 md u now1 = (st2, Thrown) \<longrightarrow>
       post_messages S (st, wss) (Some u) (Some md) now1 now2
         = ((st2, wss), (500, Json_message ''Error creating message''))"
    by (auto simp: post_messages_def)
  have d: "st_getConversation S st (im_conversationId md) = (st1, Returned (Some c))
        \<and> (u = c_adopterId c \<or> u = c_ownerId c)
        \<and> st_createMessage S st1 md u now1 = (st2, Returned m)
        \<and> st_updateConversationLastMessageTime S st2 (im_conversationId md) now2 = (st3, Thrown) \<longrightarrow>
       post_messages S (st, wss) (Some u) (Some md) now1 now2
         = ((st3, wss), (500, Json_message ''Error creating message''))"
    by (auto simp: post_messages_def)
  have e: "st_getConversation S st (im_conversationId md) = (st1, Returned (Some c))
        \<and> (u = c_adopterId c \<or> u = c_ownerId c)
        \<and> st_createMessage S st1 md u now1 = (st2, Returned m)
        \<and> st_updateConversationLastMessageTime S st2 (im_conversationId md) now2 = (st3, Returned ()) \<longrightarrow>
       post_messages S (st, wss) (Some u) (Some md) now1 now2
         = ((st3, broadcastToConversation wss (Num (im_conversationId md)) (New_message m) None),
            (201, Json_new_message m))"
    by (auto simp: post_messages_def)
  show ?thesis using a b c d e by blast
qed

theorem C4_send_message_failure_witness:
  "post_messages db_storage (db1, srv0) (Some 2)
      (Some \<lparr>im_conversationId = 7, im_content = ''Hello''\<rparr>) 100 101
   = ((db1\<lparr>tbl_conversations :=
              [\<lparr>c_id = 7, c_petId = 1, c_adopterId = 2, c_ownerId = 1, c_title = ''Max'',
                c_lastMessageAt = 100\<rparr>],
            tbl_messages := [msg 1 7 2 ''Hello'' False 100],
            messages_id_seq := 2,
            failures := []\<rparr>,
       srv0),
      (500, Json_message ''Error creating message''))"
proof -
  let ?md = "\<lparr>im_conversationId = 7, im_content = ''Hello''\<rparr>"
  let ?c = "\<lparr>c_id = 7, c_petId = 1, c_adopterId = 2, c_ownerId = 1, c_title = ''Max'',
             c_lastMessageAt = 50\<rparr>"
  let ?st1 = "db1\<lparr>failures := [False, False, True]\<rparr>"
  let ?st2 = "db1\<lparr>tbl_conversations := [?c\<lparr>c_lastMessageAt := 100\<rparr>],
                  tbl_messages := [msg 1 7 2 ''Hello'' False 100],
                  messages_id_seq := 2,
                  failures := [True]\<rparr>"
  let ?st3 = "?st2\<lparr>failures := []\<rparr>"
  have g: "st_getConversation db_storage db1 (im_conversationId ?md) = (?st1, Returned (Some ?c))"
    by (simp add: db_storage_def db1_def db0_def db_getConversation_def db_statement_def)
  have p: "(2::int) = c_adopterId ?c \<or> (2::int) = c_ownerId ?c" by simp
  have cm: "st_createMessage db_storage ?st1 ?md 2 100
            = (?st2, Returned (msg 1 7 2 ''Hello'' False 100))"
    by (simp add: db_storage_def db1_def db0_def db_createMessage_def db_statement_def
          db_updateConversationLastMessageTime_def msg_def Let_def)
  have up: "st_updateConversationLastMessageTime db_storage ?st2 (im_conversationId ?md) 101
            = (?st3, Thrown)"
    by (simp add: db_storage_def db_updateConversationLastMessageTime_def db_statement_def)
  have "post_messages db_storage (db1, srv0) (Some 2) (Some ?md) 100 101
        = ((?st3, srv0), (500, Json_message ''Error creating message''))"
    using g p cm up
      C4_send_message_failure [of db_storage db1 srv0 "Some 2" "Some ?md" 100 101 ?md ?st1 2 ?c
        ?st2 "msg 1 7 2 ''Hello'' False 100" ?st3]
    by blast
  then show ?thesis by simp
qed

end
